theory Spec2Isabelle
  imports Main "HOL-Library.Sublist" "HOL-Library.Word"
begin

section \<open>Errors\<close>

text \<open>
  Go's \<open>error\<close> values as they occur in \<open>ltouwrap.go\<close>: the package's sentinel errors
  (\<open>errors.New\<close>), the two-cause wrapper \<open>fmt.Errorf("%w: %w", a, b)\<close>, the result of
  \<open>errors.Join\<close>, the \<open>*strconv.NumError\<close> of the number parsers and the error
  of \<open>cmd.CombinedOutput\<close>. A nil error is \<open>None\<close>.
\<close>

datatype numerr = ErrSyntax | ErrRange | ErrBase int

datatype exec_error =
    ExitError int      \<comment> \<open>\<open>*exec.ExitError\<close>: the process was started and did not exit successfully\<close>
  | ExecError string   \<comment> \<open>any other error: launch failure (\<open>*exec.Error\<close>), context error, I/O error\<close>

datatype error =
    New string
  | Wrap error error
  | Join "error list"
  | NumError string string numerr
  | Exec exec_error
  | Panic string

definition errors_Join :: "error option list \<Rightarrow> error option" where
  "errors_Join errs =
     (case List.map_filter id errs of [] \<Rightarrow> None | e # es \<Rightarrow> Some (Join (e # es)))"

fun errors_Is :: "error \<Rightarrow> error \<Rightarrow> bool" where
  "errors_Is (Wrap a b) t = (Wrap a b = t \<or> errors_Is a t \<or> errors_Is b t)"
| "errors_Is (Join es) t = (Join es = t \<or> (\<exists>e \<in> set es. errors_Is e t))"
| "errors_Is e t = (e = t)"

fun is_ExitError :: "exec_error \<Rightarrow> bool" where
  "is_ExitError (ExitError _) = True"
| "is_ExitError (ExecError _) = False"

definition ErrSomeMtRelatedFieldsMissing :: error where
  "ErrSomeMtRelatedFieldsMissing = New ''some mt related fields missing''"

definition ErrSomeSgRelatedFieldsMissing :: error where
  "ErrSomeSgRelatedFieldsMissing = New ''some sg_* related fields missing''"

definition ErrDeviceCheckFailed :: error where
  "ErrDeviceCheckFailed = New ''device check failed''"

definition ErrNoMtDiscovered :: error where
  "ErrNoMtDiscovered = New ''can not find mt''"

definition ErrNoSgLogsDiscovered :: error where
  "ErrNoSgLogsDiscovered = New ''can not find sg_logs''"

definition ErrNoSgReadAttrDiscovered :: error where
  "ErrNoSgReadAttrDiscovered = New ''can not find sg_read_attr''"

definition ErrSgLogsExecFailed :: error where
  "ErrSgLogsExecFailed = New ''failed to get sg_logs cmd output''"

definition ErrSgReadAttrExecFailed :: error where
  "ErrSgReadAttrExecFailed = New ''failed to get sg_read_attr cmd output''"

definition ErrCanNotParseSgReadAttrOutput :: error where
  "ErrCanNotParseSgReadAttrOutput = New ''can not parse output of sg_read_attr''"

definition ErrSomeCapacityLogFieldsMissing :: error where
  "ErrSomeCapacityLogFieldsMissing = New ''some capacity log fields missing''"

definition ErrCanNotParseMainPartitionRemaining :: error where
  "ErrCanNotParseMainPartitionRemaining = New ''can not parse main partition remaining capacity''"

definition ErrCanNotParseAlternatePartitionRemaining :: error where
  "ErrCanNotParseAlternatePartitionRemaining =
     New ''can not parse alternate partition remaining capacity''"

definition ErrCanNotParseMainPartitionMax :: error where
  "ErrCanNotParseMainPartitionMax = New ''can not parse main partition maximum capacity''"

definition ErrCanNotParseAlternatePartitionMax :: error where
  "ErrCanNotParseAlternatePartitionMax =
     New ''can not parse alternate partition maximum capacity''"

definition ErrNoDataCartridgeOrNotReady :: error where
  "ErrNoDataCartridgeOrNotReady = New ''no data cartridge or not ready yet''"

definition ErrMtExecFailed :: error where
  "ErrMtExecFailed = New ''failed to get mt cmd output''"

definition ErrMtOutputParseFailed :: error where
  "ErrMtOutputParseFailed = New ''can not parse output of mt''"

definition ErrCanNotGoToPrevFile :: error where
  "ErrCanNotGoToPrevFile = New ''can not go to previous file''"

definition ErrCanNotGetMediumSN :: error where
  "ErrCanNotGetMediumSN = New ''can not get medium serial number''"

definition UnknownCapacity :: int where
  "UnknownCapacity = - 1"

definition ReadAttrMediumTypeDataCartridge :: int where
  "ReadAttrMediumTypeDataCartridge = 0"

section \<open>The string functions of Go's library that the package calls\<close>

text \<open>
  A Go string is a byte sequence, here a \<open>char list\<close>. \<open>strings.TrimSpace\<close> and
  \<open>strings.Fields\<close> remove white space as Unicode defines it: the six ASCII characters
  and the UTF-8 encodings of U+0085, U+00A0, U+1680, U+2000 to U+200A, U+2028, U+2029,
  U+202F, U+205F and U+3000. Every other byte, also one of an invalid encoding, is not
  white space.
\<close>

definition space_runes :: "string list" where
  "space_runes =
    [[CHR 0x09], [CHR 0x0A], [CHR 0x0B], [CHR 0x0C], [CHR 0x0D], [CHR 0x20],
     [CHR 0xC2, CHR 0x85], [CHR 0xC2, CHR 0xA0],
     [CHR 0xE1, CHR 0x9A, CHR 0x80],
     [CHR 0xE2, CHR 0x80, CHR 0x80], [CHR 0xE2, CHR 0x80, CHR 0x81],
     [CHR 0xE2, CHR 0x80, CHR 0x82], [CHR 0xE2, CHR 0x80, CHR 0x83],
     [CHR 0xE2, CHR 0x80, CHR 0x84], [CHR 0xE2, CHR 0x80, CHR 0x85],
     [CHR 0xE2, CHR 0x80, CHR 0x86], [CHR 0xE2, CHR 0x80, CHR 0x87],
     [CHR 0xE2, CHR 0x80, CHR 0x88], [CHR 0xE2, CHR 0x80, CHR 0x89],
     [CHR 0xE2, CHR 0x80, CHR 0x8A],
     [CHR 0xE2, CHR 0x80, CHR 0xA8], [CHR 0xE2, CHR 0x80, CHR 0xA9],
     [CHR 0xE2, CHR 0x80, CHR 0xAF],
     [CHR 0xE2, CHR 0x81, CHR 0x9F],
     [CHR 0xE3, CHR 0x80, CHR 0x80]]"

definition space_len :: "string \<Rightarrow> nat" where
  \<comment> \<open>the width of the white-space character the string starts with, 0 when there is none\<close>
  "space_len s = (case find (\<lambda>p. prefix p s) space_runes of Some p \<Rightarrow> length p | None \<Rightarrow> 0)"

definition space_len_end :: "string \<Rightarrow> nat" where
  \<comment> \<open>the width of the white-space character the string ends with, 0 when there is none\<close>
  "space_len_end s = (case find (\<lambda>p. suffix p s) space_runes of Some p \<Rightarrow> length p | None \<Rightarrow> 0)"

function TrimLeftSpace :: "string \<Rightarrow> string" where
  "TrimLeftSpace s = (if space_len s = 0 then s else TrimLeftSpace (drop (space_len s) s))"
  by pat_completeness auto
termination
proof (relation "measure length")
  show "wf (measure length)" by simp
next
  fix s :: string
  assume "space_len s \<noteq> 0"
  then have "s \<noteq> []"
    by (auto simp: space_len_def space_runes_def)
  with \<open>space_len s \<noteq> 0\<close> show "(drop (space_len s) s, s) \<in> measure length"
    by simp
qed

function TrimRightSpace :: "string \<Rightarrow> string" where
  "TrimRightSpace s =
     (if space_len_end s = 0 then s else TrimRightSpace (take (length s - space_len_end s) s))"
  by pat_completeness auto
termination
proof (relation "measure length")
  show "wf (measure length)" by simp
next
  fix s :: string
  assume "space_len_end s \<noteq> 0"
  then have "s \<noteq> []"
    by (auto simp: space_len_end_def space_runes_def)
  with \<open>space_len_end s \<noteq> 0\<close> show "(take (length s - space_len_end s) s, s) \<in> measure length"
    by simp
qed

definition TrimSpace :: "string \<Rightarrow> string" where
  "TrimSpace s = TrimRightSpace (TrimLeftSpace s)"

function Fields_from :: "string \<Rightarrow> string \<Rightarrow> string list" where
  "Fields_from cur [] = (if cur = [] then [] else [cur])"
| "Fields_from cur (c # s) =
     (if space_len (c # s) = 0 then Fields_from (cur @ [c]) s
      else (if cur = [] then [] else [cur]) @ Fields_from [] (drop (space_len (c # s)) (c # s)))"
  by pat_completeness auto
termination
  by (relation "measure (\<lambda>(cur, s). length s)") auto

definition Fields :: "string \<Rightarrow> string list" where
  "Fields s = Fields_from [] s"

fun Split :: "string \<Rightarrow> char \<Rightarrow> string list" where
  \<comment> \<open>\<open>strings.Split\<close> with a separator of one byte\<close>
  "Split [] sep = [[]]"
| "Split (c # s) sep =
     (if c = sep then [] # Split s sep
      else case Split s sep of x # xs \<Rightarrow> (c # x) # xs | [] \<Rightarrow> [[c]])"

definition HasPrefix :: "string \<Rightarrow> string \<Rightarrow> bool" where
  "HasPrefix s p = prefix p s"

definition remove_commas :: "string \<Rightarrow> string" where
  \<comment> \<open>\<open>strings.ReplaceAll(valStr, ",", "")\<close>\<close>
  "remove_commas s = filter (\<lambda>c. c \<noteq> CHR '','') s"

section \<open>The number functions of Go's library that the package calls\<close>

definition lower :: "char \<Rightarrow> int" where
  \<comment> \<open>\<open>lower(c) = c | ('x' - 'X')\<close>\<close>
  "lower c = or (of_char c) 32"

definition digit_val :: "char \<Rightarrow> int option" where
  "digit_val c =
     (if 48 \<le> (of_char c :: int) \<and> (of_char c :: int) \<le> 57 then Some (of_char c - 48)
      else if 97 \<le> lower c \<and> lower c \<le> 122 then Some (lower c - 97 + 10)
      else None)"

definition maxUint64 :: int where
  "maxUint64 = 2 ^ 64 - 1"

fun digits_loop :: "int \<Rightarrow> bool \<Rightarrow> string \<Rightarrow> int \<Rightarrow> bool \<Rightarrow> numerr + (int \<times> bool)" where
  \<comment> \<open>the loop of \<open>strconv.ParseUint\<close> with \<open>bitSize = 64\<close>; \<open>n\<close> is a \<open>uint64\<close>,
      its arithmetic is taken modulo \<open>2 ^ 64\<close>\<close>
  "digits_loop base base0 [] n underscores = Inr (n, underscores)"
| "digits_loop base base0 (c # s) n underscores =
     (if c = CHR ''_'' \<and> base0 then digits_loop base base0 s n True
      else case digit_val c of
        None \<Rightarrow> Inl ErrSyntax
      | Some d \<Rightarrow>
          if d \<ge> base then Inl ErrSyntax
          else if n \<ge> maxUint64 div base + 1 then Inl ErrRange
          else let n0 = (n * base) mod 2 ^ 64; n1 = (n0 + d) mod 2 ^ 64
               in if n1 < n0 \<or> n1 > maxUint64 then Inl ErrRange
                  else digits_loop base base0 s n1 underscores)"

datatype saw = SawStart | SawDigit | SawUnderscore | SawOther

fun underscore_scan :: "bool \<Rightarrow> saw \<Rightarrow> string \<Rightarrow> bool" where
  "underscore_scan hex sw [] = (sw \<noteq> SawUnderscore)"
| "underscore_scan hex sw (c # s) =
     (if (48 \<le> (of_char c :: int) \<and> (of_char c :: int) \<le> 57)
         \<or> (hex \<and> 97 \<le> lower c \<and> lower c \<le> 102)
      then underscore_scan hex SawDigit s
      else if c = CHR ''_''
      then (if sw \<noteq> SawDigit then False else underscore_scan hex SawUnderscore s)
      else if sw = SawUnderscore then False
      else underscore_scan hex SawOther s)"

definition has_base_prefix :: "string \<Rightarrow> bool" where
  "has_base_prefix s =
     (length s \<ge> 2 \<and> s ! 0 = CHR ''0''
      \<and> (lower (s ! 1) = 98 \<or> lower (s ! 1) = 111 \<or> lower (s ! 1) = 120))"

definition underscoreOK :: "string \<Rightarrow> bool" where
  "underscoreOK s0 =
     (let s = (if length s0 \<ge> 1 \<and> (s0 ! 0 = CHR ''-'' \<or> s0 ! 0 = CHR ''+'') then tl s0 else s0)
      in if has_base_prefix s
         then underscore_scan (lower (s ! 1) = 120) SawDigit (drop 2 s)
         else underscore_scan False SawStart s)"

definition ParseUint :: "string \<Rightarrow> int \<Rightarrow> error + int" where
  \<comment> \<open>\<open>strconv.ParseUint(s, base, 64)\<close>; the \<open>uint64\<close> result is an \<open>int\<close> from 0 to
      \<open>maxUint64\<close>; the value returned beside an error is dropped by every caller and is
      left out\<close>
  "ParseUint s0 base =
     (if s0 = [] then Inl (NumError ''ParseUint'' s0 ErrSyntax)
      else if \<not> (base = 0 \<or> (2 \<le> base \<and> base \<le> 36))
      then Inl (NumError ''ParseUint'' s0 (ErrBase base))
      else
        let (b, s) =
          (if base \<noteq> 0 then (base, s0)
           else if s0 ! 0 = CHR ''0''
           then (if length s0 \<ge> 3 \<and> lower (s0 ! 1) = 98 then (2, drop 2 s0)
                 else if length s0 \<ge> 3 \<and> lower (s0 ! 1) = 111 then (8, drop 2 s0)
                 else if length s0 \<ge> 3 \<and> lower (s0 ! 1) = 120 then (16, drop 2 s0)
                 else (8, drop 1 s0))
           else (10, s0))
        in case digits_loop b (base = 0) s 0 False of
             Inl k \<Rightarrow> Inl (NumError ''ParseUint'' s0 k)
           | Inr (n, underscores) \<Rightarrow>
               if underscores \<and> \<not> underscoreOK s0
               then Inl (NumError ''ParseUint'' s0 ErrSyntax)
               else Inr n)"

definition ParseInt :: "string \<Rightarrow> int \<Rightarrow> error + int" where
  \<comment> \<open>\<open>strconv.ParseInt(s, base, 64)\<close>\<close>
  "ParseInt s0 base =
     (if s0 = [] then Inl (NumError ''ParseInt'' s0 ErrSyntax)
      else
        let neg = (s0 ! 0 = CHR ''-'');
            s = (if s0 ! 0 = CHR ''+'' \<or> s0 ! 0 = CHR ''-'' then tl s0 else s0)
        in case ParseUint s base of
             Inl (NumError f num k) \<Rightarrow> Inl (NumError ''ParseInt'' s0 k)
           | Inl e \<Rightarrow> Inl e
           | Inr un \<Rightarrow>
               if \<not> neg \<and> un \<ge> 2 ^ 63 then Inl (NumError ''ParseInt'' s0 ErrRange)
               else if neg \<and> un > 2 ^ 63 then Inl (NumError ''ParseInt'' s0 ErrRange)
               else Inr (if neg then - un else un))"

function FormatUint :: "int \<Rightarrow> string" where
  \<comment> \<open>\<open>strconv.FormatUint(x, 10)\<close>, for \<open>x\<close> a \<open>uint64\<close>\<close>
  "FormatUint n =
     (if n < 10 then [char_of (48 + n)]
      else FormatUint (n div 10) @ [char_of (48 + n mod 10)])"
  by pat_completeness auto
termination
  by (relation "measure nat") auto

section \<open>The field extractors\<close>

definition index_panic :: error where
  \<comment> \<open>the run-time panic of \<open>strings.Fields(valStr)[0]\<close> on an empty slice\<close>
  "index_panic = Panic ''index out of range [0] with length 0''"

definition extractSgIntVal :: "string \<Rightarrow> int \<Rightarrow> int \<times> error option" where
  "extractSgIntVal s0 base =
     (let s = TrimSpace s0;
          splited = Split s (CHR '':'');
          valStr = TrimSpace (last splited)
      in if length valStr = 0 then (- 1, Some ErrSomeSgRelatedFieldsMissing)
         else case Fields valStr of
           [] \<Rightarrow> (- 1, Some index_panic)
         | f # _ \<Rightarrow>
            (case ParseInt (remove_commas f) base of
               Inl err \<Rightarrow> (- 1, Some err)
             | Inr valInt \<Rightarrow> (valInt, None)))"

definition extractSgStrVal :: "string \<Rightarrow> string \<times> error option" where
  "extractSgStrVal s0 =
     (let s = TrimSpace s0;
          splited = Split s (CHR '':'')
      in if length splited < 2 then ([], Some ErrSomeSgRelatedFieldsMissing)
         else let valStr = TrimSpace (last splited)
              in if length valStr = 0 then ([], Some ErrSomeSgRelatedFieldsMissing)
                 else case Fields valStr of
                   [] \<Rightarrow> ([], Some index_panic)
                 | f # _ \<Rightarrow>
                     if length f = 0 then ([], Some ErrSomeSgRelatedFieldsMissing)
                     else (f, None))"

definition extractMtUintVal :: "string \<Rightarrow> int \<Rightarrow> int \<times> error option" where
  "extractMtUintVal s0 base =
     (let s = TrimSpace s0;
          splited = Split s (CHR ''='');
          valStr = TrimSpace (last splited)
      in if length valStr = 0 then (0, Some ErrSomeMtRelatedFieldsMissing)
         else case Fields valStr of
           [] \<Rightarrow> (0, Some index_panic)
         | f # _ \<Rightarrow>
            (case ParseUint (remove_commas f) base of
               Inl err \<Rightarrow> (0, Some err)
             | Inr valInt \<Rightarrow> (valInt, None)))"

section \<open>The command runner\<close>

text \<open>
  Running a program is the one effect of the package. The operating system and the
  drive are a parameter: a world \<open>'w\<close> and a function \<open>run\<close> that answers an invocation
  with the combined output and the error of \<open>cmd.CombinedOutput\<close>, and moves the world.
  The state that the operations pass along holds the world, the log of the invocations
  made so far with their answers, and the number of contexts created so far.

  A context is \<open>context.Background()\<close> or the result of
  \<open>context.WithTimeout(context.Background(), d)\<close>; the latter carries the serial number
  of its creation, so that two deadlines created at different moments differ, and the
  duration \<open>d\<close> in nanoseconds. An invocation made by \<open>exec.Command\<close> has no context.
  The debug trace that \<open>EnableLtoUtilsWrapperDebugMode\<close> prints is left out: it changes
  no result.
\<close>

datatype "context" = Background | Deadline nat int

record invocation =
  inv_ctx :: "context option"
  inv_name :: string
  inv_args :: "string list"

type_synonym cmd_result = "string \<times> exec_error option"

type_synonym 'w runner = "'w \<Rightarrow> invocation \<Rightarrow> cmd_result \<times> 'w"

record 'w state =
  world :: 'w
  trace :: "(invocation \<times> cmd_result) list"
  contexts :: nat

record LtoNoRewindTapeDrive =
  DeviceFile :: string
  SgLogs :: string
  SgReadAttr :: string
  Mt :: string

record LtoTapeCapacityLog =
  MainPartitionRemaining :: int
  AlternatePartitionRemaining :: int
  MainPartitionMax :: int
  AlternatePartitionMax :: int

definition context_WithTimeout :: "int \<Rightarrow> 'w state \<Rightarrow> context \<times> 'w state" where
  \<comment> \<open>\<open>context.WithTimeout(context.Background(), timeout)\<close>\<close>
  "context_WithTimeout timeout s =
     (Deadline (contexts s) timeout, s\<lparr>contexts := Suc (contexts s)\<rparr>)"


definition CombinedOutput :: "'w runner \<Rightarrow> invocation \<Rightarrow> 'w state \<Rightarrow> (string \<times> error option) \<times> 'w state" where
  "CombinedOutput run call s =
     (let (r, w) = run (world s) call
      in ((fst r, map_option Exec (snd r)), s\<lparr>world := w, trace := trace s @ [(call, r)]\<rparr>))"

definition getCmdOutput :: "'w runner \<Rightarrow> string \<Rightarrow> string list \<Rightarrow> 'w state \<Rightarrow> (string \<times> error option) \<times> 'w state" where
  "getCmdOutput run name args =
     CombinedOutput run \<lparr>inv_ctx = None, inv_name = name, inv_args = args\<rparr>"

definition getCmdOutputCtx :: "'w runner \<Rightarrow> context \<Rightarrow> string \<Rightarrow> string list \<Rightarrow> 'w state \<Rightarrow> (string \<times> error option) \<times> 'w state" where
  "getCmdOutputCtx run ctx name args =
     CombinedOutput run \<lparr>inv_ctx = Some ctx, inv_name = name, inv_args = args\<rparr>"

section \<open>The drive handle\<close>

definition ExecSgReadAttr :: "'w runner \<Rightarrow> LtoNoRewindTapeDrive \<Rightarrow> string \<Rightarrow> 'w state \<Rightarrow> (string \<times> error option) \<times> 'w state" where
  "ExecSgReadAttr run device ident s =
     (case getCmdOutput run (SgReadAttr device) [''-f'', ident, DeviceFile device] s of
        ((cmdOut, Some err), s') \<Rightarrow> (([], Some (Wrap ErrSgReadAttrExecFailed err)), s')
      | ((cmdOut, None), s') \<Rightarrow> (extractSgStrVal cmdOut, s'))"

definition HasDataCartridge :: "'w runner \<Rightarrow> LtoNoRewindTapeDrive \<Rightarrow> 'w state \<Rightarrow> (bool \<times> error option) \<times> 'w state" where
  "HasDataCartridge run device s =
     (case ExecSgReadAttr run device ''0x0408'' s of
        ((attrStr, Some err), s') \<Rightarrow> ((False, Some err), s')
      | ((attrStr, None), s') \<Rightarrow>
          (case ParseInt attrStr 0 of
             Inl err \<Rightarrow> ((False, Some (Wrap ErrCanNotParseSgReadAttrOutput err)), s')
           | Inr val \<Rightarrow> ((val = ReadAttrMediumTypeDataCartridge, None), s')))"

definition TryReadAttr :: "'w runner \<Rightarrow> LtoNoRewindTapeDrive \<Rightarrow> 'w state \<Rightarrow> error option \<times> 'w state" where
  "TryReadAttr run device s = (case HasDataCartridge run device s of ((_, err), s') \<Rightarrow> (err, s'))"

definition ExecMtCmdCtx :: "'w runner \<Rightarrow> LtoNoRewindTapeDrive \<Rightarrow> context \<Rightarrow> string \<Rightarrow> 32 word list \<Rightarrow> 'w state \<Rightarrow> (string \<times> error option) \<times> 'w state" where
  "ExecMtCmdCtx run device ctx cmd args s =
     (case HasDataCartridge run device s of
        ((hasDC, Some err), s') \<Rightarrow> (([], Some (Wrap ErrNoDataCartridgeOrNotReady err)), s')
      | ((hasDC, None), s') \<Rightarrow>
          if \<not> hasDC then (([], Some ErrNoDataCartridgeOrNotReady), s')
          else getCmdOutputCtx run ctx (Mt device)
                 ([''-f'', DeviceFile device, cmd] @ map (\<lambda>x. FormatUint (uint x)) args) s')"

definition ExecMtCmd :: "'w runner \<Rightarrow> LtoNoRewindTapeDrive \<Rightarrow> int \<Rightarrow> string \<Rightarrow> 32 word list \<Rightarrow> 'w state \<Rightarrow> (string \<times> error option) \<times> 'w state" where
  "ExecMtCmd run device timeout cmd args s =
     (if timeout = 0 then ExecMtCmdCtx run device Background cmd args s
      else let (ctx, s') = context_WithTimeout timeout s
           in ExecMtCmdCtx run device ctx cmd args s')"

definition only_err :: "('a \<times> error option) \<times> 'w state \<Rightarrow> error option \<times> 'w state" where
  \<comment> \<open>\<open>_, err := ...; return err\<close>\<close>
  "only_err r = (snd (fst r), snd r)"

definition ChkDevice :: "'w runner \<Rightarrow> LtoNoRewindTapeDrive \<Rightarrow> 'w state \<Rightarrow> error option \<times> 'w state" where
  "ChkDevice run device s =
     (case ExecMtCmd run device 0 ''status'' [] s of
        ((_, Some err), s') \<Rightarrow> (Some (Wrap ErrDeviceCheckFailed err), s')
      | ((_, None), s') \<Rightarrow> (None, s'))"

definition Rewind :: "'w runner \<Rightarrow> LtoNoRewindTapeDrive \<Rightarrow> int \<Rightarrow> 'w state \<Rightarrow> error option \<times> 'w state" where
  "Rewind run device timeout s = only_err (ExecMtCmd run device timeout ''rewind'' [] s)"

definition RewindCtx :: "'w runner \<Rightarrow> LtoNoRewindTapeDrive \<Rightarrow> context \<Rightarrow> 'w state \<Rightarrow> error option \<times> 'w state" where
  "RewindCtx run device ctx s = only_err (ExecMtCmdCtx run device ctx ''rewind'' [] s)"

definition FSF :: "'w runner \<Rightarrow> LtoNoRewindTapeDrive \<Rightarrow> 32 word \<Rightarrow> int \<Rightarrow> 'w state \<Rightarrow> error option \<times> 'w state" where
  "FSF run device count timeout s = only_err (ExecMtCmd run device timeout ''fsf'' [count] s)"

definition FSFCtx :: "'w runner \<Rightarrow> LtoNoRewindTapeDrive \<Rightarrow> context \<Rightarrow> 32 word \<Rightarrow> 'w state \<Rightarrow> error option \<times> 'w state" where
  "FSFCtx run device ctx count s = only_err (ExecMtCmdCtx run device ctx ''fsf'' [count] s)"

definition BSF :: "'w runner \<Rightarrow> LtoNoRewindTapeDrive \<Rightarrow> 32 word \<Rightarrow> int \<Rightarrow> 'w state \<Rightarrow> error option \<times> 'w state" where
  "BSF run device count timeout s = only_err (ExecMtCmd run device timeout ''bsf'' [count] s)"

definition BSFCtx :: "'w runner \<Rightarrow> LtoNoRewindTapeDrive \<Rightarrow> context \<Rightarrow> 32 word \<Rightarrow> 'w state \<Rightarrow> error option \<times> 'w state" where
  "BSFCtx run device ctx count s = only_err (ExecMtCmdCtx run device ctx ''bsf'' [count] s)"

definition BSFM :: "'w runner \<Rightarrow> LtoNoRewindTapeDrive \<Rightarrow> 32 word \<Rightarrow> int \<Rightarrow> 'w state \<Rightarrow> error option \<times> 'w state" where
  "BSFM run device count timeout s = only_err (ExecMtCmd run device timeout ''bsfm'' [count] s)"

definition BSFMCtx :: "'w runner \<Rightarrow> LtoNoRewindTapeDrive \<Rightarrow> context \<Rightarrow> 32 word \<Rightarrow> 'w state \<Rightarrow> error option \<times> 'w state" where
  "BSFMCtx run device ctx count s = only_err (ExecMtCmdCtx run device ctx ''bsfm'' [count] s)"

definition Erase :: "'w runner \<Rightarrow> LtoNoRewindTapeDrive \<Rightarrow> int \<Rightarrow> 'w state \<Rightarrow> error option \<times> 'w state" where
  "Erase run device timeout s = only_err (ExecMtCmd run device timeout ''erase'' [] s)"

definition EraseCtx :: "'w runner \<Rightarrow> LtoNoRewindTapeDrive \<Rightarrow> context \<Rightarrow> 'w state \<Rightarrow> error option \<times> 'w state" where
  "EraseCtx run device ctx s = only_err (ExecMtCmdCtx run device ctx ''erase'' [] s)"

definition Eject :: "'w runner \<Rightarrow> LtoNoRewindTapeDrive \<Rightarrow> int \<Rightarrow> 'w state \<Rightarrow> error option \<times> 'w state" where
  "Eject run device timeout s = only_err (ExecMtCmd run device timeout ''eject'' [] s)"

definition EjectCtx :: "'w runner \<Rightarrow> LtoNoRewindTapeDrive \<Rightarrow> context \<Rightarrow> 'w state \<Rightarrow> error option \<times> 'w state" where
  "EjectCtx run device ctx s = only_err (ExecMtCmdCtx run device ctx ''eject'' [] s)"

definition WEOF :: "'w runner \<Rightarrow> LtoNoRewindTapeDrive \<Rightarrow> int \<Rightarrow> 'w state \<Rightarrow> error option \<times> 'w state" where
  "WEOF run device timeout s = only_err (ExecMtCmd run device timeout ''weof'' [] s)"

definition WEOFCtx :: "'w runner \<Rightarrow> LtoNoRewindTapeDrive \<Rightarrow> context \<Rightarrow> 'w state \<Rightarrow> error option \<times> 'w state" where
  "WEOFCtx run device ctx s = only_err (ExecMtCmdCtx run device ctx ''weof'' [] s)"

fun GetCurFileNumber_lines :: "string list \<Rightarrow> int \<times> error option" where
  \<comment> \<open>the loop of \<open>GetCurFileNumber\<close> over the lines of the status output\<close>
  "GetCurFileNumber_lines [] = (0, Some ErrSomeMtRelatedFieldsMissing)"
| "GetCurFileNumber_lines (line # outLines) =
     (let splited = Split line (CHR '','');
          trimed = TrimSpace (hd splited)
      in if HasPrefix trimed ''File number''
         then (case extractMtUintVal trimed 0 of
                 (val, Some err) \<Rightarrow> (0, Some (Wrap ErrMtOutputParseFailed err))
               | (val, None) \<Rightarrow> (val, None))
         else GetCurFileNumber_lines outLines)"

definition GetCurFileNumber :: "'w runner \<Rightarrow> LtoNoRewindTapeDrive \<Rightarrow> 'w state \<Rightarrow> (int \<times> error option) \<times> 'w state" where
  "GetCurFileNumber run device s =
     (case ExecMtCmd run device 0 ''status'' [] s of
        ((cmdOut, Some err), s') \<Rightarrow> ((0, Some (Wrap ErrMtExecFailed err)), s')
      | ((cmdOut, None), s') \<Rightarrow> (GetCurFileNumber_lines (Split cmdOut (CHR 0x0A)), s'))"

definition parseSgLogsCapacityLine :: "string \<Rightarrow> error \<Rightarrow> int \<times> error option" where
  \<comment> \<open>the first component is the value stored through \<open>target\<close>\<close>
  "parseSgLogsCapacityLine line baseErr =
     (case extractSgIntVal line 0 of
        (valInt, Some err) \<Rightarrow> (UnknownCapacity, Some (Wrap baseErr err))
      | (valInt, None) \<Rightarrow> (valInt, None))"

definition GetCapacityLog_line :: "LtoTapeCapacityLog \<times> error option \<Rightarrow> string \<Rightarrow> LtoTapeCapacityLog \<times> error option" where
  \<comment> \<open>the body of the loop of \<open>GetCapacityLog\<close>\<close>
  "GetCapacityLog_line st line =
     (let capLog = fst st; errs = snd st; tmp = TrimSpace line
      in if HasPrefix tmp ''Main partition remaining capacity''
         then (let (v, e) = parseSgLogsCapacityLine tmp ErrCanNotParseMainPartitionRemaining
               in (capLog\<lparr>MainPartitionRemaining := v\<rparr>, errors_Join [errs, e]))
         else if HasPrefix tmp ''Alternate partition remaining capacity''
         then (let (v, e) = parseSgLogsCapacityLine tmp ErrCanNotParseAlternatePartitionRemaining
               in (capLog\<lparr>AlternatePartitionRemaining := v\<rparr>, errors_Join [errs, e]))
         else if HasPrefix tmp ''Main partition maximum capacity''
         then (let (v, e) = parseSgLogsCapacityLine tmp ErrCanNotParseMainPartitionMax
               in (capLog\<lparr>MainPartitionMax := v\<rparr>, errors_Join [errs, e]))
         else if HasPrefix tmp ''Alternate partition maximum capacity''
         then (let (v, e) = parseSgLogsCapacityLine tmp ErrCanNotParseAlternatePartitionMax
               in (capLog\<lparr>AlternatePartitionMax := v\<rparr>, errors_Join [errs, e]))
         else (capLog, errs))"

definition GetCapacityLog_report :: "string \<Rightarrow> LtoTapeCapacityLog \<times> error option" where
  \<comment> \<open>\<open>GetCapacityLog\<close> from the output of \<open>sg_logs\<close> on\<close>
  "GetCapacityLog_report cmdOut =
     (let st = foldl GetCapacityLog_line
                 (\<lparr>MainPartitionRemaining = - 1, AlternatePartitionRemaining = - 1,
                   MainPartitionMax = - 1, AlternatePartitionMax = - 1\<rparr>, None)
                 (Split cmdOut (CHR 0x0A));
          capLog = fst st; errs = snd st
      in if AlternatePartitionMax capLog = UnknownCapacity
            \<or> AlternatePartitionRemaining capLog = UnknownCapacity
            \<or> MainPartitionMax capLog = UnknownCapacity
            \<or> MainPartitionRemaining capLog = UnknownCapacity
         then (capLog, errors_Join [errs, Some (Wrap ErrSomeCapacityLogFieldsMissing
                                                     ErrSomeSgRelatedFieldsMissing)])
         else (capLog, errs))"

definition GetCapacityLog :: "'w runner \<Rightarrow> LtoNoRewindTapeDrive \<Rightarrow> 'w state \<Rightarrow> (LtoTapeCapacityLog \<times> error option) \<times> 'w state" where
  "GetCapacityLog run device s =
     (case getCmdOutput run (SgLogs device) [''-p'', ''0x31'', DeviceFile device] s of
        ((cmdOut, Some err), s') \<Rightarrow>
          ((\<lparr>MainPartitionRemaining = - 1, AlternatePartitionRemaining = - 1,
             MainPartitionMax = - 1, AlternatePartitionMax = - 1\<rparr>,
            errors_Join [None, Some (Wrap ErrSgLogsExecFailed err)]), s')
      | ((cmdOut, None), s') \<Rightarrow> (GetCapacityLog_report cmdOut, s'))"

definition GetMediumSN :: "'w runner \<Rightarrow> LtoNoRewindTapeDrive \<Rightarrow> 'w state \<Rightarrow> (string \<times> error option) \<times> 'w state" where
  "GetMediumSN run device s =
     (case TryReadAttr run device s of
        (Some err, s') \<Rightarrow> (([], Some (Wrap ErrCanNotGetMediumSN err)), s')
      | (None, s') \<Rightarrow>
          (case ExecSgReadAttr run device ''0x0401'' s' of
             ((sn, Some err), s'') \<Rightarrow> (([], Some (Wrap ErrCanNotGetMediumSN err)), s'')
           | ((sn, None), s'') \<Rightarrow> ((sn, None), s'')))"

section \<open>Navigation\<close>

definition NextFileCtx :: "'w runner \<Rightarrow> LtoNoRewindTapeDrive \<Rightarrow> context \<Rightarrow> 'w state \<Rightarrow> error option \<times> 'w state" where
  "NextFileCtx run device ctx s = FSFCtx run device ctx 1 s"


definition PrevFileCtx :: "'w runner \<Rightarrow> LtoNoRewindTapeDrive \<Rightarrow> context \<Rightarrow> 'w state \<Rightarrow> error option \<times> 'w state" where
  "PrevFileCtx run device ctx s =
     (case GetCurFileNumber run device s of
        ((curFileNo, Some err), s1) \<Rightarrow> (Some (Wrap ErrCanNotGoToPrevFile err), s1)
      | ((curFileNo, None), s1) \<Rightarrow>
          if curFileNo = 0 \<or> curFileNo = 1 then RewindCtx run device ctx s1
          else (case BSFCtx run device ctx 1 s1 of
                  (Some err, s2) \<Rightarrow> (Some (Wrap ErrCanNotGoToPrevFile err), s2)
                | (None, s2) \<Rightarrow>
                    (case BSFMCtx run device ctx 1 s2 of
                       (Some err, s3) \<Rightarrow> (Some (Wrap ErrCanNotGoToPrevFile err), s3)
                     | (None, s3) \<Rightarrow> (None, s3))))"


text \<open>
  The loop of \<open>CountFiles\<close> runs as long as stepping forward succeeds, and nothing in the
  code bounds it: it is a partial function, and \<open>None\<close> is the loop that never ends. It is
  entered with \<open>err = nil\<close>; it returns the error of the failed step, the counter (a
  \<open>uint64\<close>) and the state.
\<close>

partial_function (option) CountFiles_loop :: "'w runner \<Rightarrow> LtoNoRewindTapeDrive \<Rightarrow> context \<Rightarrow> 64 word \<Rightarrow> 'w state \<Rightarrow> ((error \<times> 64 word) \<times> 'w state) option" where
  "CountFiles_loop run device ctx cnt s =
     (case NextFileCtx run device ctx s of
        (Some err, s') \<Rightarrow> Some ((err, cnt), s')
      | (None, s') \<Rightarrow> CountFiles_loop run device ctx (cnt + 1) s')"

definition CountFiles_ctx :: "'w runner \<Rightarrow> LtoNoRewindTapeDrive \<Rightarrow> context \<Rightarrow> 'w state \<Rightarrow> ((64 word \<times> error option) \<times> 'w state) option" where
  \<comment> \<open>the body of \<open>CountFiles\<close> once its context is created\<close>
  "CountFiles_ctx run device ctx s =
     (case RewindCtx run device ctx s of
        (Some err, s1) \<Rightarrow>
          (let (errRewind, s2) = RewindCtx run device ctx s1
           in Some ((0, errors_Join [Some err, errRewind]), s2))
      | (None, s1) \<Rightarrow>
          (case CountFiles_loop run device ctx 0 s1 of
             None \<Rightarrow> None
           | Some ((err, cnt), s2) \<Rightarrow>
               (let (errRewind, s3) = RewindCtx run device ctx s2
                in Some ((cnt, errors_Join [Some err, errRewind]), s3))))"

definition CountFiles :: "'w runner \<Rightarrow> LtoNoRewindTapeDrive \<Rightarrow> int \<Rightarrow> 'w state \<Rightarrow> ((64 word \<times> error option) \<times> 'w state) option" where
  "CountFiles run device timeout s =
     (let (ctx, s0) = context_WithTimeout timeout s
      in CountFiles_ctx run device ctx s0)"

section \<open>Utility discovery\<close>

definition possibleSgLogs :: "string list" where
  "possibleSgLogs = [''/usr/bin/sg_logs'', ''/bin/sg_logs'', ''sg_logs'']"

definition possibleSgReadAttr :: "string list" where
  "possibleSgReadAttr = [''/usr/bin/sg_read_attr'', ''/bin/sg_read_attr'', ''sg_read_attr'']"

definition possibleMt :: "string list" where
  "possibleMt = [''/usr/bin/mt'', ''/usr/bin/mt-st'', ''/bin/mt'', ''/bin/mt-st'', ''mt'', ''mt-st'']"

definition UtilsDiscoverTimeout :: int where
  "UtilsDiscoverTimeout = 1 * 1000000000"

fun errors_As_ExitError :: "error \<Rightarrow> bool" where
  \<comment> \<open>\<open>errors.As(err, &exitErr)\<close> with \<open>exitErr\<close> of type \<open>*exec.ExitError\<close>\<close>
  "errors_As_ExitError (Exec e) = is_ExitError e"
| "errors_As_ExitError (Wrap a b) = (errors_As_ExitError a \<or> errors_As_ExitError b)"
| "errors_As_ExitError (Join es) = (\<exists>e \<in> set es. errors_As_ExitError e)"
| "errors_As_ExitError _ = False"

fun utilProbe_loop :: "'w runner \<Rightarrow> context \<Rightarrow> string list \<Rightarrow> string \<Rightarrow> error \<Rightarrow> 'w state \<Rightarrow> (string \<times> error option) \<times> 'w state" where
  "utilProbe_loop run ctx [] parm onFail s = (([], Some onFail), s)"
| "utilProbe_loop run ctx (path # possibleAt) parm onFail s =
     (case getCmdOutputCtx run ctx path [parm] s of
        ((_, None), s') \<Rightarrow> ((path, None), s')
      | ((_, Some err), s') \<Rightarrow>
          if errors_As_ExitError err then ((path, None), s')
          else utilProbe_loop run ctx possibleAt parm onFail s')"

definition utilProbe :: "'w runner \<Rightarrow> string list \<Rightarrow> string \<Rightarrow> error \<Rightarrow> 'w state \<Rightarrow> (string \<times> error option) \<times> 'w state" where
  "utilProbe run possibleAt parm onFail s =
     (let (ctx, s') = context_WithTimeout UtilsDiscoverTimeout s
      in utilProbe_loop run ctx possibleAt parm onFail s')"

definition discoverSgLogs :: "'w runner \<Rightarrow> 'w state \<Rightarrow> (string \<times> error option) \<times> 'w state" where
  "discoverSgLogs run s = utilProbe run possibleSgLogs ''-h'' ErrNoSgLogsDiscovered s"

definition discoverMt :: "'w runner \<Rightarrow> 'w state \<Rightarrow> (string \<times> error option) \<times> 'w state" where
  "discoverMt run s = utilProbe run possibleMt ''-h'' ErrNoMtDiscovered s"

definition discoverSgReadAttr :: "'w runner \<Rightarrow> 'w state \<Rightarrow> (string \<times> error option) \<times> 'w state" where
  "discoverSgReadAttr run s = utilProbe run possibleSgReadAttr ''-h'' ErrNoSgReadAttrDiscovered s"

section \<open>Two worlds to run the operations in\<close>

text \<open>
  \<open>scripted\<close> answers the invocations from a list, one answer each, whatever is invoked;
  when the list is used up the program is not found. \<open>installed\<close> answers by the name of
  the program from a table and has no state. \<open>start\<close> is the state before any invocation.
\<close>

definition not_found :: cmd_result where
  "not_found = ([], Some (ExecError ''executable file not found''))"

definition scripted :: "cmd_result list runner" where
  "scripted w call = (case w of [] \<Rightarrow> (not_found, []) | r # rs \<Rightarrow> (r, rs))"

definition installed :: "(string \<times> cmd_result) list \<Rightarrow> unit runner" where
  "installed table w call =
     (case map_of table (inv_name call) of None \<Rightarrow> (not_found, w) | Some r \<Rightarrow> (r, w))"

definition start :: "'w \<Rightarrow> 'w state" where
  "start w = \<lparr>world = w, trace = [], contexts = 0\<rparr>"

definition nst0 :: LtoNoRewindTapeDrive where
  "nst0 = \<lparr>DeviceFile = ''/dev/nst0'', SgLogs = ''sg_logs'', SgReadAttr = ''sg_read_attr'', Mt = ''mt''\<rparr>"

definition data_cartridge :: cmd_result where
  \<comment> \<open>the answer of \<open>sg_read_attr\<close> for a data cartridge\<close>
  "data_cartridge = (''  Medium type: 0'', None)"

definition cleaning_cartridge :: cmd_result where
  "cleaning_cartridge = (''  Medium type: 1'', None)"

section \<open>What the theorems speak of\<close>

definition calls :: "'w state \<Rightarrow> invocation list" where
  \<comment> \<open>the invocations made so far, oldest first\<close>
  "calls s = map fst (trace s)"

definition probe_call :: "LtoNoRewindTapeDrive \<Rightarrow> invocation" where
  \<comment> \<open>the invocation of the medium-type probe\<close>
  "probe_call device =
     \<lparr>inv_ctx = None, inv_name = SgReadAttr device,
      inv_args = [''-f'', ''0x0408'', DeviceFile device]\<rparr>"

definition mt_call :: "LtoNoRewindTapeDrive \<Rightarrow> context \<Rightarrow> string \<Rightarrow> 32 word list \<Rightarrow> invocation" where
  \<comment> \<open>the invocation of \<open>mt\<close> for a command and its numeric arguments under a context\<close>
  "mt_call device ctx cmd args =
     \<lparr>inv_ctx = Some ctx, inv_name = Mt device,
      inv_args = [''-f'', DeviceFile device, cmd] @ map (\<lambda>x. FormatUint (uint x)) args\<rparr>"

definition sg_read_attr_call :: "LtoNoRewindTapeDrive \<Rightarrow> string \<Rightarrow> invocation" where
  \<comment> \<open>the invocation that \<open>ExecSgReadAttr\<close> makes for an attribute\<close>
  "sg_read_attr_call device ident =
     \<lparr>inv_ctx = None, inv_name = SgReadAttr device,
      inv_args = [''-f'', ident, DeviceFile device]\<rparr>"

definition sg_logs_call :: "LtoNoRewindTapeDrive \<Rightarrow> invocation" where
  \<comment> \<open>the invocation that \<open>GetCapacityLog\<close> makes\<close>
  "sg_logs_call device =
     \<lparr>inv_ctx = None, inv_name = SgLogs device,
      inv_args = [''-p'', ''0x31'', DeviceFile device]\<rparr>"

definition new_calls :: "'w state \<Rightarrow> 'w state \<Rightarrow> invocation list" where
  \<comment> \<open>the invocations made between an earlier state and a later one\<close>
  "new_calls s s' = drop (length (calls s)) (calls s')"

definition calls_within :: "'w state \<Rightarrow> 'w state \<Rightarrow> invocation set \<Rightarrow> bool" where
  \<comment> \<open>the log only grew between the two states, and by invocations of the given set\<close>
  "calls_within s s' A = (prefix (calls s) (calls s') \<and> set (new_calls s s') \<subseteq> A)"

definition ascii_space :: "char \<Rightarrow> bool" where
  \<comment> \<open>the six white-space characters of ASCII\<close>
  "ascii_space c = (c \<in> set [CHR 0x09, CHR 0x0A, CHR 0x0B, CHR 0x0C, CHR 0x0D, CHR 0x20])"

definition plain :: "char \<Rightarrow> bool" where
  \<comment> \<open>a byte that occurs in no white-space character\<close>
  "plain c = (c \<notin> set (concat space_runes))"

definition is_digit :: "char \<Rightarrow> bool" where
  "is_digit c = (48 \<le> (of_char c :: int) \<and> (of_char c :: int) \<le> 57)"

definition int_decimal :: "int \<Rightarrow> string" where
  \<comment> \<open>an integer as it is written: decimal digits with no leading zero, \<open>-\<close> before a
      negative one\<close>
  "int_decimal n = (if n < 0 then CHR ''-'' # FormatUint (- n) else FormatUint n)"

datatype capacity_field = MainRemaining | AlternateRemaining | MainMax | AlternateMax

fun label_of :: "capacity_field \<Rightarrow> string" where
  "label_of MainRemaining = ''Main partition remaining capacity''"
| "label_of AlternateRemaining = ''Alternate partition remaining capacity''"
| "label_of MainMax = ''Main partition maximum capacity''"
| "label_of AlternateMax = ''Alternate partition maximum capacity''"

fun base_err_of :: "capacity_field \<Rightarrow> error" where
  "base_err_of MainRemaining = ErrCanNotParseMainPartitionRemaining"
| "base_err_of AlternateRemaining = ErrCanNotParseAlternatePartitionRemaining"
| "base_err_of MainMax = ErrCanNotParseMainPartitionMax"
| "base_err_of AlternateMax = ErrCanNotParseAlternatePartitionMax"

fun get_field :: "capacity_field \<Rightarrow> LtoTapeCapacityLog \<Rightarrow> int" where
  "get_field MainRemaining capLog = MainPartitionRemaining capLog"
| "get_field AlternateRemaining capLog = AlternatePartitionRemaining capLog"
| "get_field MainMax capLog = MainPartitionMax capLog"
| "get_field AlternateMax capLog = AlternatePartitionMax capLog"

fun set_field :: "capacity_field \<Rightarrow> int \<Rightarrow> LtoTapeCapacityLog \<Rightarrow> LtoTapeCapacityLog" where
  "set_field MainRemaining v capLog = capLog\<lparr>MainPartitionRemaining := v\<rparr>"
| "set_field AlternateRemaining v capLog = capLog\<lparr>AlternatePartitionRemaining := v\<rparr>"
| "set_field MainMax v capLog = capLog\<lparr>MainPartitionMax := v\<rparr>"
| "set_field AlternateMax v capLog = capLog\<lparr>AlternatePartitionMax := v\<rparr>"

definition first_subfield :: "string \<Rightarrow> string" where
  \<comment> \<open>the sub-field of a line before its first comma, trimmed\<close>
  "first_subfield line = TrimSpace (takeWhile (\<lambda>c. c \<noteq> CHR '','') line)"

definition file_number_of :: "string \<Rightarrow> int \<times> error option" where
  \<comment> \<open>the current file number of a status output, in the words of the specification: the
      first line whose sub-field before the first comma is a "File number" field decides,
      by the equals-delimited rule\<close>
  "file_number_of cmdOut =
     (case find (\<lambda>line. prefix ''File number'' (first_subfield line)) (Split cmdOut (CHR 0x0A)) of
        None \<Rightarrow> (0, Some ErrSomeMtRelatedFieldsMissing)
      | Some line \<Rightarrow>
          (case extractMtUintVal (first_subfield line) 0 of
             (val, None) \<Rightarrow> (val, None)
           | (val, Some err) \<Rightarrow> (0, Some (Wrap ErrMtOutputParseFailed err))))"

definition timeout_ctx :: "int \<Rightarrow> 'w state \<Rightarrow> context" where
  \<comment> \<open>the context under which an operation with a timeout runs its command: the
      background context for a timeout of 0, a fresh deadline otherwise\<close>
  "timeout_ctx timeout s = (if timeout = 0 then Background else Deadline (contexts s) timeout)"

fun replays :: "'w runner \<Rightarrow> 'w \<Rightarrow> (invocation \<times> cmd_result) list \<Rightarrow> bool" where
  \<comment> \<open>a log is what the runner answers, one invocation after the other, from a world on\<close>
  "replays run w [] = True"
| "replays run w (x # tr) = (fst (run w (fst x)) = snd x \<and> replays run (snd (run w (fst x))) tr)"

definition new_trace :: "'w state \<Rightarrow> 'w state \<Rightarrow> (invocation \<times> cmd_result) list" where
  \<comment> \<open>the invocations made between an earlier state and a later one, with their answers\<close>
  "new_trace s s' = drop (length (trace s)) (trace s')"

definition util_call :: "context \<Rightarrow> string \<Rightarrow> string \<Rightarrow> invocation" where
  \<comment> \<open>the invocation by which \<open>utilProbe\<close> tries a candidate\<close>
  "util_call ctx parm path = \<lparr>inv_ctx = Some ctx, inv_name = path, inv_args = [parm]\<rparr>"

definition resolvable :: "cmd_result \<Rightarrow> bool" where
  \<comment> \<open>the program ran: it succeeded, or it exited by itself with a failure\<close>
  "resolvable r = (case snd r of None \<Rightarrow> True | Some e \<Rightarrow> is_ExitError e)"

definition probe_outcome :: "context \<Rightarrow> string \<Rightarrow> error \<Rightarrow> string list \<Rightarrow> string \<times> error option \<Rightarrow> (invocation \<times> cmd_result) list \<Rightarrow> bool" where
  \<comment> \<open>what utility discovery is to do, in the words of the specification: \<open>tr\<close> is the log
      of the probe invocations with their answers, \<open>res\<close> the result. The candidates are
      tried in order, each with the probe argument under the one context; every candidate
      tried before the last one did not resolve; if the last one tried resolved, it is the
      result; if not, every candidate was tried and the result is the failure given.\<close>
  "probe_outcome ctx parm onFail possibleAt res tr =
     (length tr \<le> length possibleAt
      \<and> map fst tr = map (util_call ctx parm) (take (length tr) possibleAt)
      \<and> list_all (\<lambda>x. \<not> resolvable (snd x)) (butlast tr)
      \<and> (if tr \<noteq> [] \<and> resolvable (snd (last tr))
         then res = (possibleAt ! (length tr - 1), None)
         else length tr = length possibleAt \<and> res = ([], Some onFail)))"

definition count_calls :: "LtoNoRewindTapeDrive \<Rightarrow> context \<Rightarrow> invocation set" where
  \<comment> \<open>the probe, and \<open>mt rewind\<close> and \<open>mt fsf 1\<close> under one context\<close>
  "count_calls device ctx =
     {probe_call device, mt_call device ctx ''rewind'' [], mt_call device ctx ''fsf'' [1]}"

definition prev_calls :: "LtoNoRewindTapeDrive \<Rightarrow> context \<Rightarrow> invocation set" where
  \<comment> \<open>the probe, \<open>mt status\<close> under the background context, and \<open>mt rewind\<close>, \<open>mt bsf 1\<close>
      and \<open>mt bsfm 1\<close> under one context\<close>
  "prev_calls device ctx =
     {probe_call device, mt_call device Background ''status'' [],
      mt_call device ctx ''rewind'' [], mt_call device ctx ''bsf'' [1],
      mt_call device ctx ''bsfm'' [1]}"

definition two_files :: "cmd_result list" where
  \<comment> \<open>the answers of a drive on which rewinding succeeds, stepping forward succeeds twice
      and fails the third time, and the last rewinding fails; the probe succeeds each time\<close>
  "two_files =
     [data_cartridge, ([], None),
      data_cartridge, ([], None),
      data_cartridge, ([], None),
      data_cartridge, (''mt: /dev/nst0: Input/output error'', Some (ExitError 2)),
      data_cartridge, (''mt: /dev/nst0: Device or resource busy'', Some (ExitError 1))]"


fun NextFileCtx_times :: "'w runner \<Rightarrow> LtoNoRewindTapeDrive \<Rightarrow> context \<Rightarrow> nat \<Rightarrow> 'w state \<Rightarrow> 'w state option" where
  \<comment> \<open>stepping forward one file succeeds \<open>k\<close> times in a row; the state after the last step\<close>
  "NextFileCtx_times run device ctx 0 s = Some s"
| "NextFileCtx_times run device ctx (Suc k) s =
     (case NextFileCtx run device ctx s of
        (None, s') \<Rightarrow> NextFileCtx_times run device ctx k s'
      | (Some err, s') \<Rightarrow> None)"

definition status_report :: string where
  \<comment> \<open>an output of \<open>mt status\<close>, the tape at file 2\<close>
  "status_report =
     ''SCSI 2 tape drive:'' @ [CHR 0x0A] @
     ''File number=2, block number=0, partition=0.'' @ [CHR 0x0A] @
     ''Tape block size 0 bytes. Density code 0x58 (no translation).'' @ [CHR 0x0A] @
     ''Soft error count since last status=0''"

definition at_file_2 :: "cmd_result list" where
  \<comment> \<open>the answers of a drive at file 2 on which three \<open>mt\<close> commands succeed\<close>
  "at_file_2 =
     [data_cartridge, (status_report, None),
      data_cartridge, ([], None),
      data_cartridge, ([], None)]"

definition capacity_report :: string where
  \<comment> \<open>an output of \<open>sg_logs -p 0x31\<close>\<close>
  "capacity_report =
     ''Tape capacity page  (LTO-5 and LTO-6 specific) [0x31]'' @ [CHR 0x0A] @
     ''  Main partition remaining capacity (in MiB): 1,438,084'' @ [CHR 0x0A] @
     ''  Alternate partition remaining capacity (in MiB): 0'' @ [CHR 0x0A] @
     ''  Main partition maximum capacity (in MiB): 1438084 MiB'' @ [CHR 0x0A] @
     ''  Alternate partition maximum capacity (in MiB): 0'' @ [CHR 0x0A]"

definition five_seconds :: int where
  "five_seconds = 5 * 1000000000"

definition loaded :: "(string \<times> cmd_result) list" where
  \<comment> \<open>a drive with a data cartridge that answers all three utilities\<close>
  "loaded =
     [(''sg_read_attr'', data_cartridge),
      (''mt'', (status_report, None)),
      (''sg_logs'', (capacity_report, None))]"

definition only_mt_st :: "(string \<times> cmd_result) list" where
  \<comment> \<open>a system where \<open>/usr/bin/mt-st\<close> is the one program installed; it rejects \<open>-h\<close>\<close>
  "only_mt_st = [(''/usr/bin/mt-st'', (''mt-st: invalid option'', Some (ExitError 1)))]"

definition online_status :: "cmd_result list" where
  \<comment> \<open>the answers of a drive whose status line is the one of the specification's example\<close>
  "online_status = [data_cartridge, (''ONLINE, File number=3, Block number=0'', None)]"

definition file_3_status :: "cmd_result list" where
  \<comment> \<open>the answers of a drive whose status line starts with the File number field\<close>
  "file_3_status = [data_cartridge, (''File number=3, Block number=0'', None)]"

definition no_medium :: "(string \<times> cmd_result) list" where
  \<comment> \<open>a drive that answers \<open>mt\<close> and \<open>sg_logs\<close>, with no cartridge for \<open>sg_read_attr\<close> to read\<close>
  "no_medium =
     [(''sg_read_attr'', (''sg_read_attr: medium not present'', Some (ExitError 2))),
      (''mt'', (status_report, None)),
      (''sg_logs'', (capacity_report, None))]"

declare TrimLeftSpace.simps [simp del]
declare TrimRightSpace.simps [simp del]
declare Fields_from.simps [simp del]
declare FormatUint.simps [simp del]


section \<open>The effect of one operation on the log of invocations\<close>

lemma CombinedOutput_calls:
  "calls (snd (CombinedOutput run call s)) = calls s @ [call]"
  by (simp add: CombinedOutput_def calls_def split: prod.splits)

lemma CombinedOutput_contexts:
  "contexts (snd (CombinedOutput run call s)) = contexts s"
  by (simp add: CombinedOutput_def split: prod.splits)

lemma CombinedOutput_fst:
  "fst (CombinedOutput run call s) =
     (fst (fst (run (world s) call)), map_option Exec (snd (fst (run (world s) call))))"
  by (simp add: CombinedOutput_def split: prod.splits)

lemma ExecSgReadAttr_state:
  "snd (ExecSgReadAttr run device ident s) =
     snd (CombinedOutput run
            \<lparr>inv_ctx = None, inv_name = SgReadAttr device,
             inv_args = [''-f'', ident, DeviceFile device]\<rparr> s)"
  by (auto simp: ExecSgReadAttr_def getCmdOutput_def split: prod.splits option.splits)

lemma HasDataCartridge_state:
  "snd (HasDataCartridge run device s) = snd (CombinedOutput run (probe_call device) s)"
  by (auto simp: HasDataCartridge_def ExecSgReadAttr_state probe_call_def
      split: prod.splits option.splits sum.splits dest: arg_cong [where f = snd])

lemma HasDataCartridge_calls:
  "calls (snd (HasDataCartridge run device s)) = calls s @ [probe_call device]"
  by (simp add: HasDataCartridge_state CombinedOutput_calls)

lemma HasDataCartridge_contexts:
  "contexts (snd (HasDataCartridge run device s)) = contexts s"
  by (simp add: HasDataCartridge_state CombinedOutput_contexts)

lemma ExecMtCmdCtx_eq:
  "ExecMtCmdCtx run device ctx cmd args s =
     (if fst (HasDataCartridge run device s) = (True, None)
      then CombinedOutput run (mt_call device ctx cmd args) (snd (HasDataCartridge run device s))
      else (([], Some (case snd (fst (HasDataCartridge run device s)) of
                         None \<Rightarrow> ErrNoDataCartridgeOrNotReady
                       | Some err \<Rightarrow> Wrap ErrNoDataCartridgeOrNotReady err)),
            snd (HasDataCartridge run device s)))"
  by (auto simp: ExecMtCmdCtx_def getCmdOutputCtx_def mt_call_def split: prod.splits option.splits)

lemma ExecMtCmdCtx_calls:
  "calls (snd (ExecMtCmdCtx run device ctx cmd args s)) =
     calls s @ probe_call device #
       (if fst (HasDataCartridge run device s) = (True, None)
        then [mt_call device ctx cmd args] else [])"
  by (simp add: ExecMtCmdCtx_eq CombinedOutput_calls HasDataCartridge_calls)

lemma ExecMtCmdCtx_contexts:
  "contexts (snd (ExecMtCmdCtx run device ctx cmd args s)) = contexts s"
  by (simp add: ExecMtCmdCtx_eq CombinedOutput_contexts HasDataCartridge_contexts)

lemma only_err_snd [simp]: "snd (only_err r) = snd r"
  by (simp add: only_err_def)

lemma only_err_fst [simp]: "fst (only_err r) = snd (fst r)"
  by (simp add: only_err_def)

section \<open>The gate before every positioning command\<close>

lemma calls_contexts_update [simp]: "calls (s\<lparr>contexts := k\<rparr>) = calls s"
  by (simp add: calls_def)

lemma CombinedOutput_contexts_update:
  "CombinedOutput run call (s\<lparr>contexts := k\<rparr>) =
     (fst (CombinedOutput run call s), (snd (CombinedOutput run call s))\<lparr>contexts := k\<rparr>)"
  by (simp add: CombinedOutput_def split: prod.splits)

lemma ExecSgReadAttr_contexts_update:
  "ExecSgReadAttr run device ident (s\<lparr>contexts := k\<rparr>) =
     (fst (ExecSgReadAttr run device ident s),
      (snd (ExecSgReadAttr run device ident s))\<lparr>contexts := k\<rparr>)"
  by (auto simp: ExecSgReadAttr_def getCmdOutput_def CombinedOutput_contexts_update
      split: prod.splits option.splits)

lemma HasDataCartridge_contexts_update:
  "HasDataCartridge run device (s\<lparr>contexts := k\<rparr>) =
     (fst (HasDataCartridge run device s), (snd (HasDataCartridge run device s))\<lparr>contexts := k\<rparr>)"
  by (auto simp: HasDataCartridge_def ExecSgReadAttr_contexts_update
      split: prod.splits option.splits sum.splits)

lemma ExecMtCmdCtx_contexts_update:
  "ExecMtCmdCtx run device ctx cmd args (s\<lparr>contexts := k\<rparr>) =
     (fst (ExecMtCmdCtx run device ctx cmd args s),
      (snd (ExecMtCmdCtx run device ctx cmd args s))\<lparr>contexts := k\<rparr>)"
  by (simp add: ExecMtCmdCtx_eq HasDataCartridge_contexts_update CombinedOutput_contexts_update)

lemma ExecMtCmd_eq:
  "ExecMtCmd run device timeout cmd args s =
     (fst (ExecMtCmdCtx run device (timeout_ctx timeout s) cmd args s),
      if timeout = 0 then snd (ExecMtCmdCtx run device (timeout_ctx timeout s) cmd args s)
      else (snd (ExecMtCmdCtx run device (timeout_ctx timeout s) cmd args s))
             \<lparr>contexts := Suc (contexts s)\<rparr>)"
  by (simp add: ExecMtCmd_def timeout_ctx_def context_WithTimeout_def
      ExecMtCmdCtx_contexts_update)

lemma ExecMtCmd_calls:
  "calls (snd (ExecMtCmd run device timeout cmd args s)) =
     calls (snd (ExecMtCmdCtx run device (timeout_ctx timeout s) cmd args s))"
  by (simp add: ExecMtCmd_eq)

text \<open>
  Claim C3. Every positioning primitive is \<open>ExecMtCmdCtx\<close> with its command word, under
  the caller's context in the context-carrying form and, in the form with a timeout, through
  \<open>ExecMtCmd\<close> under the background context or a fresh deadline. \<open>ExecMtCmdCtx\<close> and
  \<open>ExecMtCmd\<close> run the medium-type probe first: the probe's invocation is the next entry of
  the log. The \<open>mt\<close> command is invoked if and only if the probe returned no error and
  reported a data cartridge, and then it is the entry after the probe's and its answer is
  the result. Otherwise nothing more is invoked and the result is the error
  "no data cartridge or not ready yet", wrapping the probe's error when the probe failed.
\<close>

theorem positioning_gate:
  "calls (snd (HasDataCartridge run device s)) = calls s @ [probe_call device]
   \<and> (if fst (HasDataCartridge run device s) = (True, None)
      then ExecMtCmdCtx run device ctx cmd args s =
             getCmdOutputCtx run ctx (Mt device)
               ([''-f'', DeviceFile device, cmd] @ map (\<lambda>x. FormatUint (uint x)) args)
               (snd (HasDataCartridge run device s))
           \<and> calls (snd (ExecMtCmdCtx run device ctx cmd args s)) =
               calls s @ [probe_call device, mt_call device ctx cmd args]
      else ExecMtCmdCtx run device ctx cmd args s =
             (([], Some (case snd (fst (HasDataCartridge run device s)) of
                           None \<Rightarrow> ErrNoDataCartridgeOrNotReady
                         | Some err \<Rightarrow> Wrap ErrNoDataCartridgeOrNotReady err)),
              snd (HasDataCartridge run device s))
           \<and> calls (snd (ExecMtCmdCtx run device ctx cmd args s)) = calls s @ [probe_call device])
   \<and> RewindCtx run device ctx s = only_err (ExecMtCmdCtx run device ctx ''rewind'' [] s)
   \<and> FSFCtx run device ctx n s = only_err (ExecMtCmdCtx run device ctx ''fsf'' [n] s)
   \<and> BSFCtx run device ctx n s = only_err (ExecMtCmdCtx run device ctx ''bsf'' [n] s)
   \<and> BSFMCtx run device ctx n s = only_err (ExecMtCmdCtx run device ctx ''bsfm'' [n] s)
   \<and> WEOFCtx run device ctx s = only_err (ExecMtCmdCtx run device ctx ''weof'' [] s)
   \<and> EraseCtx run device ctx s = only_err (ExecMtCmdCtx run device ctx ''erase'' [] s)
   \<and> EjectCtx run device ctx s = only_err (ExecMtCmdCtx run device ctx ''eject'' [] s)
   \<and> (if fst (HasDataCartridge run device s) = (True, None)
      then fst (ExecMtCmd run device timeout cmd args s) =
             fst (getCmdOutputCtx run (timeout_ctx timeout s) (Mt device)
                    ([''-f'', DeviceFile device, cmd] @ map (\<lambda>x. FormatUint (uint x)) args)
                    (snd (HasDataCartridge run device s)))
           \<and> calls (snd (ExecMtCmd run device timeout cmd args s)) =
               calls s @ [probe_call device, mt_call device (timeout_ctx timeout s) cmd args]
      else fst (ExecMtCmd run device timeout cmd args s) =
             ([], Some (case snd (fst (HasDataCartridge run device s)) of
                          None \<Rightarrow> ErrNoDataCartridgeOrNotReady
                        | Some err \<Rightarrow> Wrap ErrNoDataCartridgeOrNotReady err))
           \<and> calls (snd (ExecMtCmd run device timeout cmd args s)) = calls s @ [probe_call device])
   \<and> world (snd (ExecMtCmd run device timeout cmd args s)) =
       world (snd (ExecMtCmdCtx run device (timeout_ctx timeout s) cmd args s))
   \<and> Rewind run device timeout s = only_err (ExecMtCmd run device timeout ''rewind'' [] s)
   \<and> FSF run device n timeout s = only_err (ExecMtCmd run device timeout ''fsf'' [n] s)
   \<and> BSF run device n timeout s = only_err (ExecMtCmd run device timeout ''bsf'' [n] s)
   \<and> BSFM run device n timeout s = only_err (ExecMtCmd run device timeout ''bsfm'' [n] s)
   \<and> WEOF run device timeout s = only_err (ExecMtCmd run device timeout ''weof'' [] s)
   \<and> Erase run device timeout s = only_err (ExecMtCmd run device timeout ''erase'' [] s)
   \<and> Eject run device timeout s = only_err (ExecMtCmd run device timeout ''eject'' [] s)"
proof -
  have ctx_forms:
    "calls (snd (HasDataCartridge run device s)) = calls s @ [probe_call device]
     \<and> (if fst (HasDataCartridge run device s) = (True, None)
        then ExecMtCmdCtx run device ctx cmd args s =
               getCmdOutputCtx run ctx (Mt device)
                 ([''-f'', DeviceFile device, cmd] @ map (\<lambda>x. FormatUint (uint x)) args)
                 (snd (HasDataCartridge run device s))
             \<and> calls (snd (ExecMtCmdCtx run device ctx cmd args s)) =
                 calls s @ [probe_call device, mt_call device ctx cmd args]
        else ExecMtCmdCtx run device ctx cmd args s =
               (([], Some (case snd (fst (HasDataCartridge run device s)) of
                             None \<Rightarrow> ErrNoDataCartridgeOrNotReady
                           | Some err \<Rightarrow> Wrap ErrNoDataCartridgeOrNotReady err)),
                snd (HasDataCartridge run device s))
             \<and> calls (snd (ExecMtCmdCtx run device ctx cmd args s)) =
                 calls s @ [probe_call device])" for ctx
    by (simp add: HasDataCartridge_calls CombinedOutput_calls ExecMtCmdCtx_eq
        getCmdOutputCtx_def mt_call_def)
  have names:
    "RewindCtx run device ctx s = only_err (ExecMtCmdCtx run device ctx ''rewind'' [] s)
     \<and> FSFCtx run device ctx n s = only_err (ExecMtCmdCtx run device ctx ''fsf'' [n] s)
     \<and> BSFCtx run device ctx n s = only_err (ExecMtCmdCtx run device ctx ''bsf'' [n] s)
     \<and> BSFMCtx run device ctx n s = only_err (ExecMtCmdCtx run device ctx ''bsfm'' [n] s)
     \<and> WEOFCtx run device ctx s = only_err (ExecMtCmdCtx run device ctx ''weof'' [] s)
     \<and> EraseCtx run device ctx s = only_err (ExecMtCmdCtx run device ctx ''erase'' [] s)
     \<and> EjectCtx run device ctx s = only_err (ExecMtCmdCtx run device ctx ''eject'' [] s)
     \<and> Rewind run device timeout s = only_err (ExecMtCmd run device timeout ''rewind'' [] s)
     \<and> FSF run device n timeout s = only_err (ExecMtCmd run device timeout ''fsf'' [n] s)
     \<and> BSF run device n timeout s = only_err (ExecMtCmd run device timeout ''bsf'' [n] s)
     \<and> BSFM run device n timeout s = only_err (ExecMtCmd run device timeout ''bsfm'' [n] s)
     \<and> WEOF run device timeout s = only_err (ExecMtCmd run device timeout ''weof'' [] s)
     \<and> Erase run device timeout s = only_err (ExecMtCmd run device timeout ''erase'' [] s)
     \<and> Eject run device timeout s = only_err (ExecMtCmd run device timeout ''eject'' [] s)"
    by (simp add: RewindCtx_def FSFCtx_def BSFCtx_def BSFMCtx_def WEOFCtx_def EraseCtx_def
        EjectCtx_def Rewind_def FSF_def BSF_def BSFM_def WEOF_def Erase_def Eject_def)
  have fst_eq: "fst (ExecMtCmd run device timeout cmd args s) =
      fst (ExecMtCmdCtx run device (timeout_ctx timeout s) cmd args s)"
    by (simp add: ExecMtCmd_eq)
  have world_eq: "world (snd (ExecMtCmd run device timeout cmd args s)) =
       world (snd (ExecMtCmdCtx run device (timeout_ctx timeout s) cmd args s))"
    by (simp add: ExecMtCmd_eq)
  have timed:
    "if fst (HasDataCartridge run device s) = (True, None)
      then fst (ExecMtCmd run device timeout cmd args s) =
             fst (getCmdOutputCtx run (timeout_ctx timeout s) (Mt device)
                    ([''-f'', DeviceFile device, cmd] @ map (\<lambda>x. FormatUint (uint x)) args)
                    (snd (HasDataCartridge run device s)))
           \<and> calls (snd (ExecMtCmd run device timeout cmd args s)) =
               calls s @ [probe_call device, mt_call device (timeout_ctx timeout s) cmd args]
      else fst (ExecMtCmd run device timeout cmd args s) =
             ([], Some (case snd (fst (HasDataCartridge run device s)) of
                          None \<Rightarrow> ErrNoDataCartridgeOrNotReady
                        | Some err \<Rightarrow> Wrap ErrNoDataCartridgeOrNotReady err))
           \<and> calls (snd (ExecMtCmd run device timeout cmd args s)) = calls s @ [probe_call device]"
    by (simp add: fst_eq ExecMtCmd_calls ExecMtCmdCtx_calls)
       (simp add: ExecMtCmdCtx_eq getCmdOutputCtx_def mt_call_def)
  from ctx_forms [of ctx] names timed world_eq show ?thesis
    by (elim conjE) (intro conjI; assumption)
qed

theorem positioning_gate_witness:
  "Erase (installed no_medium) nst0 five_seconds (start ()) =
     (Some (Wrap ErrNoDataCartridgeOrNotReady
              (Wrap ErrSgReadAttrExecFailed (Exec (ExitError 2)))),
      \<lparr>world = (),
       trace = [(probe_call nst0, (''sg_read_attr: medium not present'', Some (ExitError 2)))],
       contexts = 1\<rparr>)
   \<and> calls (snd (Erase (installed loaded) nst0 five_seconds (start ()))) =
       [probe_call nst0, mt_call nst0 (Deadline 0 five_seconds) ''erase'' []]
   \<and> calls (snd (FSFCtx (installed loaded) nst0 Background 3 (start ()))) =
       [probe_call nst0, mt_call nst0 Background ''fsf'' [3]]"
proof -
  have e: "Erase (installed no_medium) nst0 five_seconds (start ()) =
     (Some (Wrap ErrNoDataCartridgeOrNotReady
              (Wrap ErrSgReadAttrExecFailed (Exec (ExitError 2)))),
      \<lparr>world = (),
       trace = [(probe_call nst0, (''sg_read_attr: medium not present'', Some (ExitError 2)))],
       contexts = 1\<rparr>)"
    by code_simp
  have p: "fst (HasDataCartridge (installed loaded) nst0 (start ())) = (True, None)"
    by code_simp
  have c: "calls (start ()) = []" "timeout_ctx five_seconds (start ()) = Deadline 0 five_seconds"
    by code_simp+
  from positioning_gate [of "installed loaded" nst0 "start ()" Background "''fsf''" "[3]" 3
      five_seconds] p c
  have f: "calls (snd (FSFCtx (installed loaded) nst0 Background 3 (start ()))) =
       [probe_call nst0, mt_call nst0 Background ''fsf'' [3]]"
    by (simp add: getCmdOutputCtx_def CombinedOutput_calls mt_call_def)
  from positioning_gate [of "installed loaded" nst0 "start ()" Background "''erase''" "[]" 3
      five_seconds] p c
  have "calls (snd (Erase (installed loaded) nst0 five_seconds (start ()))) =
       [probe_call nst0, mt_call nst0 (Deadline 0 five_seconds) ''erase'' []]"
    by (simp add: getCmdOutputCtx_def CombinedOutput_calls mt_call_def)
  with e f show ?thesis
    by (intro conjI)
qed

section \<open>Invocations between two states\<close>

lemma calls_withinI:
  "calls s' = calls s @ X \<Longrightarrow> set X \<subseteq> A \<Longrightarrow> calls_within s s' A"
  by (simp add: calls_within_def new_calls_def)

lemma calls_withinE:
  assumes "calls_within s s' A"
  obtains X where "calls s' = calls s @ X" and "set X \<subseteq> A"
  using assms by (auto simp: calls_within_def new_calls_def prefix_def)

lemma calls_within_trans:
  assumes "calls_within s s' A" and "calls_within s' s'' B"
  shows "calls_within s s'' (A \<union> B)"
proof -
  from assms(1) obtain X where X: "calls s' = calls s @ X" "set X \<subseteq> A"
    by (rule calls_withinE)
  from assms(2) obtain Y where Y: "calls s'' = calls s' @ Y" "set Y \<subseteq> B"
    by (rule calls_withinE)
  show ?thesis
    by (rule calls_withinI [where X = "X @ Y"]) (use X Y in auto)
qed

lemma calls_within_same:
  "calls_within s s' A \<Longrightarrow> calls_within s' s'' A \<Longrightarrow> calls_within s s'' A"
  using calls_within_trans [of s s' A s'' A] by simp

lemma calls_within_mono: "calls_within s s' A \<Longrightarrow> A \<subseteq> B \<Longrightarrow> calls_within s s' B"
  by (auto simp: calls_within_def)

lemma ExecMtCmdCtx_within:
  "calls_within s (snd (ExecMtCmdCtx run device ctx cmd args s))
     {probe_call device, mt_call device ctx cmd args}"
  by (rule calls_withinI [OF ExecMtCmdCtx_calls]) auto

lemma ExecMtCmd_zero:
  "ExecMtCmd run device 0 cmd args s = ExecMtCmdCtx run device Background cmd args s"
  by (simp add: ExecMtCmd_def)

lemma GetCurFileNumber_state:
  "snd (GetCurFileNumber run device s) =
     snd (ExecMtCmdCtx run device Background ''status'' [] s)"
  by (auto simp: GetCurFileNumber_def ExecMtCmd_zero split: prod.splits option.splits)

lemma NextFileCtx_state:
  "snd (NextFileCtx run device ctx s) = snd (ExecMtCmdCtx run device ctx ''fsf'' [1] s)"
  by (simp add: NextFileCtx_def FSFCtx_def)

lemma RewindCtx_state:
  "snd (RewindCtx run device ctx s) = snd (ExecMtCmdCtx run device ctx ''rewind'' [] s)"
  by (simp add: RewindCtx_def)

lemma NextFileCtx_within:
  "calls_within s (snd (NextFileCtx run device ctx s)) (count_calls device ctx)"
  unfolding NextFileCtx_state count_calls_def
  by (rule calls_within_mono [OF ExecMtCmdCtx_within]) auto

lemma RewindCtx_within:
  "calls_within s (snd (RewindCtx run device ctx s)) (count_calls device ctx)"
  unfolding RewindCtx_state count_calls_def
  by (rule calls_within_mono [OF ExecMtCmdCtx_within]) auto

lemma NextFileCtx_contexts: "contexts (snd (NextFileCtx run device ctx s)) = contexts s"
  by (simp add: NextFileCtx_state ExecMtCmdCtx_contexts)

lemma RewindCtx_contexts: "contexts (snd (RewindCtx run device ctx s)) = contexts s"
  by (simp add: RewindCtx_state ExecMtCmdCtx_contexts)

section \<open>Going to the previous file\<close>

lemma PrevFileCtx_eq:
  "PrevFileCtx run device ctx s =
     (case GetCurFileNumber run device s of
        ((curFileNo, Some err), s1) \<Rightarrow> (Some (Wrap ErrCanNotGoToPrevFile err), s1)
      | ((curFileNo, None), s1) \<Rightarrow>
          if curFileNo = 0 \<or> curFileNo = 1
          then only_err (ExecMtCmdCtx run device ctx ''rewind'' [] s1)
          else (case ExecMtCmdCtx run device ctx ''bsf'' [1] s1 of
                  ((_, Some err), s2) \<Rightarrow> (Some (Wrap ErrCanNotGoToPrevFile err), s2)
                | ((_, None), s2) \<Rightarrow>
                    (case ExecMtCmdCtx run device ctx ''bsfm'' [1] s2 of
                       ((_, Some err), s3) \<Rightarrow> (Some (Wrap ErrCanNotGoToPrevFile err), s3)
                     | ((_, None), s3) \<Rightarrow> (None, s3))))"
  by (auto simp: PrevFileCtx_def RewindCtx_def BSFCtx_def BSFMCtx_def only_err_def
      split: prod.splits option.splits)

lemma PrevFileCtx_within:
  "calls_within s (snd (PrevFileCtx run device ctx s)) (prev_calls device ctx)"
proof -
  obtain n e s1 where q: "GetCurFileNumber run device s = ((n, e), s1)"
    by (metis surj_pair)
  have s1: "calls_within s s1 (prev_calls device ctx)"
    using ExecMtCmdCtx_within [of s run device Background "''status''" "[]"]
      GetCurFileNumber_state [of run device s] q
    by (auto simp: prev_calls_def elim: calls_within_mono)
  have step: "calls_within t (snd (ExecMtCmdCtx run device ctx cmd args t)) (prev_calls device ctx)"
    if "cmd = ''rewind'' \<and> args = [] \<or> cmd = ''bsf'' \<and> args = [1] \<or> cmd = ''bsfm'' \<and> args = [1]"
    for t cmd args
    using that ExecMtCmdCtx_within [of t run device ctx cmd args]
    by (auto simp: prev_calls_def elim!: calls_within_mono)
  show ?thesis
  proof (cases e)
    case (Some err)
    with q s1 show ?thesis by (simp add: PrevFileCtx_eq)
  next
    case None
    show ?thesis
    proof (cases "n = 0 \<or> n = 1")
      case True
      with q None calls_within_same [OF s1 step [of "''rewind''" "[]" s1]] show ?thesis
        by (simp add: PrevFileCtx_eq)
    next
      case False
      obtain o2 e2 s2 where b: "ExecMtCmdCtx run device ctx ''bsf'' [1] s1 = ((o2, e2), s2)"
        by (metis surj_pair)
      have s2: "calls_within s s2 (prev_calls device ctx)"
        using calls_within_same [OF s1 step [of "''bsf''" "[1]" s1]] b by simp
      obtain o3 e3 s3 where m: "ExecMtCmdCtx run device ctx ''bsfm'' [1] s2 = ((o3, e3), s3)"
        by (metis surj_pair)
      have s3: "calls_within s s3 (prev_calls device ctx)"
        using calls_within_same [OF s2 step [of "''bsfm''" "[1]" s2]] m by simp
      from q None False b m s2 s3 show ?thesis
        by (simp add: PrevFileCtx_eq split: option.splits)
    qed
  qed
qed

lemma PrevFileCtx_after_query:
  "prefix (calls (snd (GetCurFileNumber run device s)))
          (calls (snd (PrevFileCtx run device ctx s)))"
proof -
  obtain n e s1 where q: "GetCurFileNumber run device s = ((n, e), s1)"
    by (metis surj_pair)
  have w: "prefix (calls t) (calls (snd (ExecMtCmdCtx run device ctx cmd args t)))"
    for t cmd args
    by (simp add: ExecMtCmdCtx_calls)
  have "prefix (calls s1) (calls (snd (PrevFileCtx run device ctx s)))"
  proof (cases e)
    case (Some err)
    with q show ?thesis by (simp add: PrevFileCtx_eq)
  next
    case None
    show ?thesis
    proof (cases "n = 0 \<or> n = 1")
      case True
      with q None w [of s1 "''rewind''" "[]"] show ?thesis
        by (simp add: PrevFileCtx_eq)
    next
      case False
      obtain o2 e2 s2 where b: "ExecMtCmdCtx run device ctx ''bsf'' [1] s1 = ((o2, e2), s2)"
        by (metis surj_pair)
      obtain o3 e3 s3 where m: "ExecMtCmdCtx run device ctx ''bsfm'' [1] s2 = ((o3, e3), s3)"
        by (metis surj_pair)
      have p: "prefix (calls s1) (calls s2)" "prefix (calls s2) (calls s3)"
        using w [of s1 "''bsf''" "[1]"] w [of s2 "''bsfm''" "[1]"] b m by simp_all
      then have "prefix (calls s1) (calls s3)" by (rule prefix_order.trans)
      with q None False b m p(1) show ?thesis
        by (simp add: PrevFileCtx_eq split: option.splits)
    qed
  qed
  with q show ?thesis by simp
qed

text \<open>
  Claim C1. \<open>PrevFileCtx\<close> queries the current file number first: what the query invoked
  is the start of what \<open>PrevFileCtx\<close> invoked. If the query fails, the result is the error
  "can not go to previous file" wrapping the query's error. If the number is 0 or 1, the
  operation is exactly \<open>mt rewind\<close> under the caller's context. Otherwise it is \<open>mt bsf 1\<close>
  and, when that succeeded, \<open>mt bsfm 1\<close>, both under the caller's context, and a failure
  of either is the error "can not go to previous file" wrapping its cause.
\<close>

theorem PrevFileCtx_algorithm:
  "PrevFileCtx run device ctx s =
     (case GetCurFileNumber run device s of
        ((curFileNo, Some err), s1) \<Rightarrow> (Some (Wrap ErrCanNotGoToPrevFile err), s1)
      | ((curFileNo, None), s1) \<Rightarrow>
          if curFileNo = 0 \<or> curFileNo = 1
          then only_err (ExecMtCmdCtx run device ctx ''rewind'' [] s1)
          else (case ExecMtCmdCtx run device ctx ''bsf'' [1] s1 of
                  ((_, Some err), s2) \<Rightarrow> (Some (Wrap ErrCanNotGoToPrevFile err), s2)
                | ((_, None), s2) \<Rightarrow>
                    (case ExecMtCmdCtx run device ctx ''bsfm'' [1] s2 of
                       ((_, Some err), s3) \<Rightarrow> (Some (Wrap ErrCanNotGoToPrevFile err), s3)
                     | ((_, None), s3) \<Rightarrow> (None, s3))))
   \<and> prefix (calls (snd (GetCurFileNumber run device s)))
             (calls (snd (PrevFileCtx run device ctx s)))
   \<and> RewindCtx run device ctx s = only_err (ExecMtCmdCtx run device ctx ''rewind'' [] s)
   \<and> BSFCtx run device ctx 1 s = only_err (ExecMtCmdCtx run device ctx ''bsf'' [1] s)
   \<and> BSFMCtx run device ctx 1 s = only_err (ExecMtCmdCtx run device ctx ''bsfm'' [1] s)"
  using PrevFileCtx_eq [of run device ctx s] PrevFileCtx_after_query [of run device s ctx]
  by (simp add: RewindCtx_def BSFCtx_def BSFMCtx_def)

theorem PrevFileCtx_algorithm_witness:
  "fst (PrevFileCtx scripted nst0 (Deadline 0 five_seconds) (start at_file_2)) = None
   \<and> calls (snd (PrevFileCtx scripted nst0 (Deadline 0 five_seconds) (start at_file_2))) =
       [probe_call nst0, mt_call nst0 Background ''status'' [],
        probe_call nst0, mt_call nst0 (Deadline 0 five_seconds) ''bsf'' [1],
        probe_call nst0, mt_call nst0 (Deadline 0 five_seconds) ''bsfm'' [1]]"
proof -
  have run: "PrevFileCtx scripted nst0 (Deadline 0 five_seconds) (start at_file_2) =
      (None, \<lparr>world = [],
         trace = [(probe_call nst0, data_cartridge),
                  (mt_call nst0 Background ''status'' [], (status_report, None)),
                  (probe_call nst0, data_cartridge),
                  (mt_call nst0 (Deadline 0 five_seconds) ''bsf'' [1], ([], None)),
                  (probe_call nst0, data_cartridge),
                  (mt_call nst0 (Deadline 0 five_seconds) ''bsfm'' [1], ([], None))],
         contexts = 0\<rparr>)"
    by code_simp
  from PrevFileCtx_algorithm [of scripted nst0 "Deadline 0 five_seconds" "start at_file_2"]
  have "prefix (calls (snd (GetCurFileNumber scripted nst0 (start at_file_2))))
          (calls (snd (PrevFileCtx scripted nst0 (Deadline 0 five_seconds) (start at_file_2))))"
    by (elim conjE)
  with run show ?thesis
    by (simp add: calls_def)
qed

section \<open>Counting the files\<close>

lemma CountFiles_loop_within:
  assumes "CountFiles_loop run device ctx cnt s = Some y"
  shows "calls_within s (snd y) (count_calls device ctx) \<and> contexts (snd y) = contexts s"
  using assms
proof (induction rule: CountFiles_loop.raw_induct [rotated 1, consumes 1])
  case (1 loop run device ctx cnt s y)
  obtain e s' where n: "NextFileCtx run device ctx s = (e, s')"
    by (metis surj_pair)
  have w: "calls_within s s' (count_calls device ctx)" "contexts s' = contexts s"
    using NextFileCtx_within [of s run device ctx] NextFileCtx_contexts [of run device ctx s] n
    by simp_all
  show ?case
  proof (cases e)
    case (Some err)
    with 1(2) n w show ?thesis by auto
  next
    case None
    with 1(2) n have "loop run device ctx (cnt + 1) s' = Some y" by simp
    from 1(1) [OF this] w show ?thesis
      by (auto intro: calls_within_same)
  qed
qed

lemma CountFiles_loop_times:
  "NextFileCtx_times run device ctx k s = Some s' \<Longrightarrow>
   NextFileCtx run device ctx s' = (Some err, s'') \<Longrightarrow>
   CountFiles_loop run device ctx cnt s = Some ((err, cnt + of_nat k), s'')"
proof (induction k arbitrary: s cnt)
  case 0
  then show ?case by (subst CountFiles_loop.simps) simp
next
  case (Suc k)
  obtain e t where n: "NextFileCtx run device ctx s = (e, t)"
    by (metis surj_pair)
  with Suc.prems(1) have e: "e = None" and t: "NextFileCtx_times run device ctx k t = Some s'"
    by (auto split: option.splits)
  from Suc.IH [OF t Suc.prems(2), of "cnt + 1"] n e show ?case
    by (subst CountFiles_loop.simps) (simp add: add.assoc add.commute)
qed

lemma CountFiles_returns:
  assumes "context_WithTimeout timeout s = (ctx, s0)"
    and "RewindCtx run device ctx s0 = (None, s1)"
    and "NextFileCtx_times run device ctx K s1 = Some s2"
    and "NextFileCtx run device ctx s2 = (Some err, s3)"
    and "RewindCtx run device ctx s3 = (errRewind, s4)"
  shows "CountFiles run device timeout s =
           Some ((of_nat K, errors_Join [Some err, errRewind]), s4)"
proof -
  have "CountFiles_loop run device ctx 0 s1 = Some ((err, of_nat K), s3)"
    using CountFiles_loop_times [OF assms(3) assms(4), of 0] by simp
  with assms(1,2,5) show ?thesis
    by (simp add: CountFiles_def CountFiles_ctx_def)
qed

lemma two_files_steps:
  "context_WithTimeout five_seconds (start two_files) =
     (Deadline 0 five_seconds, (snd (context_WithTimeout five_seconds (start two_files))))"
  "RewindCtx scripted nst0 (Deadline 0 five_seconds)
     (snd (context_WithTimeout five_seconds (start two_files))) =
   (None, (snd (RewindCtx scripted nst0 (Deadline 0 five_seconds) (snd (context_WithTimeout
    five_seconds (start two_files))))))"
  "NextFileCtx_times scripted nst0 (Deadline 0 five_seconds) 2
     (snd (RewindCtx scripted nst0 (Deadline 0 five_seconds) (snd (context_WithTimeout
     five_seconds (start two_files))))) =
   Some (the (NextFileCtx_times scripted nst0 (Deadline 0 five_seconds) 2 (snd (RewindCtx
        scripted nst0 (Deadline 0 five_seconds) (snd (context_WithTimeout five_seconds (start
        two_files)))))))"
  "NextFileCtx scripted nst0 (Deadline 0 five_seconds)
     (the (NextFileCtx_times scripted nst0 (Deadline 0 five_seconds) 2 (snd (RewindCtx scripted
     nst0 (Deadline 0 five_seconds) (snd (context_WithTimeout five_seconds (start
     two_files))))))) =
   (Some (Exec (ExitError 2)),
    (snd (NextFileCtx scripted nst0 (Deadline 0 five_seconds) (the (NextFileCtx_times scripted
    nst0 (Deadline 0 five_seconds) 2 (snd (RewindCtx scripted nst0 (Deadline 0 five_seconds)
    (snd (context_WithTimeout five_seconds (start two_files))))))))))"
  "RewindCtx scripted nst0 (Deadline 0 five_seconds)
     (snd (NextFileCtx scripted nst0 (Deadline 0 five_seconds) (the (NextFileCtx_times scripted
     nst0 (Deadline 0 five_seconds) 2 (snd (RewindCtx scripted nst0 (Deadline 0 five_seconds)
     (snd (context_WithTimeout five_seconds (start two_files))))))))) =
   (Some (Exec (ExitError 1)),
    (snd (RewindCtx scripted nst0 (Deadline 0 five_seconds) (snd (NextFileCtx scripted nst0
    (Deadline 0 five_seconds) (the (NextFileCtx_times scripted nst0 (Deadline 0 five_seconds) 2
    (snd (RewindCtx scripted nst0 (Deadline 0 five_seconds) (snd (context_WithTimeout
    five_seconds (start two_files))))))))))))"
  "map inv_ctx (calls
     (snd (RewindCtx scripted nst0 (Deadline 0 five_seconds) (snd (NextFileCtx scripted nst0
     (Deadline 0 five_seconds) (the (NextFileCtx_times scripted nst0 (Deadline 0 five_seconds) 2
     (snd (RewindCtx scripted nst0 (Deadline 0 five_seconds) (snd (context_WithTimeout
     five_seconds (start two_files)))))))))))) =
   [None, Some (Deadline 0 five_seconds), None, Some (Deadline 0 five_seconds),
    None, Some (Deadline 0 five_seconds), None, Some (Deadline 0 five_seconds),
    None, Some (Deadline 0 five_seconds)]"
  by code_simp+

lemma two_files_run:
  "CountFiles scripted nst0 five_seconds (start two_files) =
     Some ((2, Some (Join [Exec (ExitError 2), Exec (ExitError 1)])),
           (snd (RewindCtx scripted nst0 (Deadline 0 five_seconds) (snd (NextFileCtx scripted
           nst0 (Deadline 0 five_seconds) (the (NextFileCtx_times scripted nst0 (Deadline 0
           five_seconds) 2 (snd (RewindCtx scripted nst0 (Deadline 0 five_seconds) (snd
           (context_WithTimeout five_seconds (start two_files))))))))))))"
  using CountFiles_returns [OF two_files_steps(1) two_files_steps(2) two_files_steps(3)
      two_files_steps(4) two_files_steps(5)]
  by (simp add: errors_Join_def List.map_filter_simps)

text \<open>
  Claim C2, as stated, fails in its last clause. On a drive where rewinding succeeds,
  stepping forward succeeds twice and fails the third time, \<open>CountFiles\<close> with a timeout
  of five seconds makes ten invocations: the five \<open>mt\<close> commands carry the one deadline,
  and the five medium-type probes before them carry no context at all, so the whole loop
  does not run under the caller's deadline.
\<close>

theorem CountFiles_deadline_counterexample:
  "map_option (\<lambda>r. map inv_ctx (calls (snd r)))
     (CountFiles scripted nst0 five_seconds (start two_files)) =
   Some [None, Some (Deadline 0 five_seconds), None, Some (Deadline 0 five_seconds),
         None, Some (Deadline 0 five_seconds), None, Some (Deadline 0 five_seconds),
         None, Some (Deadline 0 five_seconds)]"
  by (simp add: two_files_run two_files_steps(6))

text \<open>
  Claim C2, amended. \<open>CountFiles\<close> creates one context from the caller's timeout. If
  rewinding under it succeeds, stepping forward one file then succeeds exactly \<open>K\<close> times
  and fails the next time with \<open>err\<close>, then \<open>CountFiles\<close> returns: it rewinds once more,
  whatever the outcome, and its result is the count \<open>K\<close> (as a \<open>uint64\<close>) with the join of
  \<open>err\<close> and the error of the last rewinding, also when the last rewinding failed. One
  context was created in all, not one per step, and every \<open>mt\<close> command of the run was
  invoked under it; the medium-type probe before each \<open>mt\<close> command was invoked without
  any context, and nothing else was invoked.
\<close>

theorem CountFiles_counts:
  assumes ctx: "context_WithTimeout timeout s = (ctx, s0)"
    and rewind: "RewindCtx run device ctx s0 = (None, s1)"
    and steps: "NextFileCtx_times run device ctx K s1 = Some s2"
    and fails: "NextFileCtx run device ctx s2 = (Some err, s3)"
    and final: "RewindCtx run device ctx s3 = (errRewind, s4)"
  shows "CountFiles run device timeout s =
           Some ((of_nat K, errors_Join [Some err, errRewind]), s4)
         \<and> errors_Join [Some err, errRewind] =
             Some (Join (err # (case errRewind of None \<Rightarrow> [] | Some e \<Rightarrow> [e])))
         \<and> (K < 2 ^ 64 \<longrightarrow> unat (of_nat K :: 64 word) = K)
         \<and> calls_within s s4 (count_calls device ctx)
         \<and> contexts s4 = Suc (contexts s)
         \<and> ctx = Deadline (contexts s) timeout
         \<and> count_calls device ctx =
             {probe_call device, mt_call device ctx ''rewind'' [], mt_call device ctx ''fsf'' [1]}
         \<and> inv_ctx (probe_call device) = None
         \<and> inv_ctx (mt_call device ctx ''rewind'' []) = Some ctx
         \<and> inv_ctx (mt_call device ctx ''fsf'' [1]) = Some ctx"
proof -
  have loop: "CountFiles_loop run device ctx 0 s1 = Some ((err, of_nat K), s3)"
    using CountFiles_loop_times [OF steps fails, of 0] by simp
  have result: "CountFiles run device timeout s =
           Some ((of_nat K, errors_Join [Some err, errRewind]), s4)"
    by (simp add: CountFiles_def CountFiles_ctx_def ctx rewind loop final)
  have join: "errors_Join [Some err, errRewind] =
             Some (Join (err # (case errRewind of None \<Rightarrow> [] | Some e \<Rightarrow> [e])))"
    by (simp add: errors_Join_def List.map_filter_simps split: option.splits)
  have word: "K < 2 ^ 64 \<longrightarrow> unat (of_nat K :: 64 word) = K"
    by (simp add: unat_of_nat)
  have c0: "calls s0 = calls s" "contexts s0 = Suc (contexts s)"
    using ctx by (auto simp: context_WithTimeout_def calls_def)
  have w1: "calls_within s0 s1 (count_calls device ctx)" "contexts s1 = contexts s0"
    using RewindCtx_within [of s0 run device ctx] RewindCtx_contexts [of run device ctx s0] rewind
    by simp_all
  have w3: "calls_within s1 s3 (count_calls device ctx)" "contexts s3 = contexts s1"
    using CountFiles_loop_within [OF loop] by simp_all
  have w4: "calls_within s3 s4 (count_calls device ctx)" "contexts s4 = contexts s3"
    using RewindCtx_within [of s3 run device ctx] RewindCtx_contexts [of run device ctx s3] final
    by simp_all
  have "calls_within s0 s4 (count_calls device ctx)"
    using w1(1) w3(1) w4(1) by (blast intro: calls_within_same)
  then have within: "calls_within s s4 (count_calls device ctx)"
    using c0(1) by (simp add: calls_within_def new_calls_def)
  have c: "ctx = Deadline (contexts s) timeout"
    using ctx by (auto simp: context_WithTimeout_def)
  have i: "inv_ctx (probe_call device) = None"
    "inv_ctx (mt_call device ctx ''rewind'' []) = Some ctx"
    "inv_ctx (mt_call device ctx ''fsf'' [1]) = Some ctx"
    by (simp_all add: probe_call_def mt_call_def)
  have n: "contexts s4 = Suc (contexts s)"
    using w1(2) w3(2) w4(2) c0(2) by simp
  from result join word within n c count_calls_def [of device ctx] i show ?thesis
    by (intro conjI)
qed

theorem CountFiles_counts_witness:
  "map_option fst (CountFiles scripted nst0 five_seconds (start two_files)) =
     Some (2, Some (Join [Exec (ExitError 2), Exec (ExitError 1)]))
   \<and> map_option (\<lambda>r. contexts (snd r))
        (CountFiles scripted nst0 five_seconds (start two_files)) = Some 1"
proof -
  note t = CountFiles_counts [OF two_files_steps(1) two_files_steps(2) two_files_steps(3)
      two_files_steps(4) two_files_steps(5)]
  note r = t [THEN conjunct1]
  note n = t [THEN conjunct2, THEN conjunct2, THEN conjunct2, THEN conjunct2, THEN conjunct1]
  have "contexts (start two_files) = 0"
    by (simp add: start_def)
  with r n show ?thesis
    by (simp add: errors_Join_def List.map_filter_simps)
qed


section \<open>A timeout of zero\<close>



section \<open>What the status check needs\<close>

lemma ChkDevice_fst:
  "fst (ChkDevice run device s) =
     map_option (Wrap ErrDeviceCheckFailed)
       (snd (fst (ExecMtCmdCtx run device Background ''status'' [] s)))"
  by (auto simp: ChkDevice_def ExecMtCmd_zero split: prod.splits option.splits)

lemma ChkDevice_state:
  "snd (ChkDevice run device s) = snd (ExecMtCmdCtx run device Background ''status'' [] s)"
  by (auto simp: ChkDevice_def ExecMtCmd_zero split: prod.splits option.splits)

text \<open>
  Claim C6, as stated, fails. On a drive that answers \<open>mt status\<close> without error but has
  no cartridge that \<open>sg_read_attr\<close> can read, \<open>ChkDevice\<close> fails, and \<open>mt\<close> is not even
  invoked: the status command is behind the medium-type probe like every \<open>mt\<close> command.
\<close>

theorem ChkDevice_counterexample:
  "fst (installed no_medium () (mt_call nst0 Background ''status'' [])) = (status_report, None)
   \<and> fst (ChkDevice (installed no_medium) nst0 (start ())) =
       Some (Wrap ErrDeviceCheckFailed
              (Wrap ErrNoDataCartridgeOrNotReady
                (Wrap ErrSgReadAttrExecFailed (Exec (ExitError 2)))))
   \<and> calls (snd (ChkDevice (installed no_medium) nst0 (start ()))) = [probe_call nst0]"
  by code_simp

text \<open>
  Claim C6, amended. \<open>ChkDevice\<close> succeeds exactly when the medium-type probe returned no
  error and reported a data cartridge and the invocation of \<open>mt status\<close> that follows
  returned no error; its failure is "device check failed" wrapping the cause. Its
  success does need a loaded data cartridge.
\<close>

theorem ChkDevice_success:
  "(fst (ChkDevice run device s) = None) =
     (fst (HasDataCartridge run device s) = (True, None)
      \<and> snd (fst (run (world (snd (HasDataCartridge run device s)))
                      (mt_call device Background ''status'' []))) = None)
   \<and> fst (ChkDevice run device s) =
       map_option (Wrap ErrDeviceCheckFailed)
         (snd (fst (ExecMtCmdCtx run device Background ''status'' [] s)))
   \<and> calls (snd (ChkDevice run device s)) =
       calls s @ probe_call device #
         (if fst (HasDataCartridge run device s) = (True, None)
          then [mt_call device Background ''status'' []] else [])"
  by (simp add: ChkDevice_fst ChkDevice_state ExecMtCmdCtx_calls)
     (simp add: ExecMtCmdCtx_eq CombinedOutput_fst)

theorem ChkDevice_success_witness:
  "fst (ChkDevice (installed loaded) nst0 (start ())) = None
   \<and> calls (snd (ChkDevice (installed loaded) nst0 (start ()))) =
       [probe_call nst0, mt_call nst0 Background ''status'' []]"
proof -
  have p: "fst (HasDataCartridge (installed loaded) nst0 (start ())) = (True, None)"
    by code_simp
  have m: "snd (fst (installed loaded (world (snd (HasDataCartridge (installed loaded) nst0 (start ()))))
                      (mt_call nst0 Background ''status'' []))) = None"
    by code_simp
  have c: "calls (start ()) = []"
    by code_simp
  from ChkDevice_success [of "installed loaded" nst0 "start ()"] p m c show ?thesis
    by simp
qed

section \<open>Which operations check the medium\<close>

lemma GetCapacityLog_state:
  "snd (GetCapacityLog run device s) = snd (CombinedOutput run (sg_logs_call device) s)"
  by (auto simp: GetCapacityLog_def getCmdOutput_def sg_logs_call_def
      split: prod.splits option.splits)

lemma ExecSgReadAttr_calls:
  "calls (snd (ExecSgReadAttr run device ident s)) = calls s @ [sg_read_attr_call device ident]"
  by (simp add: ExecSgReadAttr_state CombinedOutput_calls sg_read_attr_call_def)

lemma GetMediumSN_calls:
  "calls (snd (GetMediumSN run device s)) =
     calls s @ probe_call device #
       (if snd (fst (HasDataCartridge run device s)) = None
        then [sg_read_attr_call device ''0x0401''] else [])"
proof -
  obtain b e s1 where h: "HasDataCartridge run device s = ((b, e), s1)"
    by (metis surj_pair)
  have c1: "calls s1 = calls s @ [probe_call device]"
    using HasDataCartridge_calls [of run device s] h by simp
  show ?thesis
  proof (cases e)
    case (Some err)
    with h c1 show ?thesis
      by (simp add: GetMediumSN_def TryReadAttr_def)
  next
    case None
    have "snd (GetMediumSN run device s) = snd (ExecSgReadAttr run device ''0x0401'' s1)"
      using h None by (auto simp: GetMediumSN_def TryReadAttr_def split: prod.splits option.splits)
    with h None c1 show ?thesis
      by (simp add: ExecSgReadAttr_calls)
  qed
qed

text \<open>
  Claim C7, as stated, fails. On a drive with no cartridge that \<open>sg_read_attr\<close> can read,
  \<open>GetCapacityLog\<close> invokes \<open>sg_logs\<close> and nothing else, and returns the capacities
  without an error: no medium check comes before the Command Runner.
\<close>

theorem GetCapacityLog_counterexample:
  "calls (snd (GetCapacityLog (installed no_medium) nst0 (start ()))) = [sg_logs_call nst0]
   \<and> fst (GetCapacityLog (installed no_medium) nst0 (start ())) =
       (\<lparr>MainPartitionRemaining = 1438084, AlternatePartitionRemaining = 0,
         MainPartitionMax = 1438084, AlternatePartitionMax = 0\<rparr>, None)
   \<and> fst (fst (HasDataCartridge (installed no_medium) nst0 (start ()))) = False"
  by code_simp

text \<open>
  Claim C7, amended. Every operation that issues an \<open>mt\<close> command, all of them through
  \<open>ExecMtCmdCtx\<close>, runs the medium-type probe first and invokes \<open>mt\<close> only after the
  probe confirmed a data cartridge; \<open>GetMediumSN\<close> runs the probe first and reads the
  serial number only when the probe returned no error. \<open>GetCapacityLog\<close> and
  \<open>ExecSgReadAttr\<close> invoke their utility at once, as their only invocation, with no
  check of the medium before it.
\<close>

theorem medium_check_scope:
  "calls (snd (ExecMtCmdCtx run device ctx cmd args s)) =
     calls s @ probe_call device #
       (if fst (HasDataCartridge run device s) = (True, None)
        then [mt_call device ctx cmd args] else [])
   \<and> calls (snd (GetMediumSN run device s)) =
       calls s @ probe_call device #
         (if snd (fst (HasDataCartridge run device s)) = None
          then [sg_read_attr_call device ''0x0401''] else [])
   \<and> calls (snd (GetCapacityLog run device s)) = calls s @ [sg_logs_call device]
   \<and> calls (snd (ExecSgReadAttr run device ident s)) =
       calls s @ [sg_read_attr_call device ident]"
  by (simp add: ExecMtCmdCtx_calls GetMediumSN_calls GetCapacityLog_state CombinedOutput_calls
      ExecSgReadAttr_calls)

theorem medium_check_scope_witness:
  "calls (snd (ExecMtCmdCtx (installed no_medium) nst0 Background ''erase'' [] (start ()))) =
     [probe_call nst0]
   \<and> calls (snd (ExecMtCmdCtx (installed loaded) nst0 Background ''erase'' [] (start ()))) =
     [probe_call nst0, mt_call nst0 Background ''erase'' []]
   \<and> calls (snd (GetCapacityLog (installed no_medium) nst0 (start ()))) = [sg_logs_call nst0]"
proof -
  have p: "fst (HasDataCartridge (installed no_medium) nst0 (start ())) \<noteq> (True, None)"
    "fst (HasDataCartridge (installed loaded) nst0 (start ())) = (True, None)"
    by code_simp+
  have c: "calls (start ()) = []"
    by code_simp
  from medium_check_scope [of "installed no_medium" nst0 Background "''erase''" "[]" "start ()"]
    medium_check_scope [of "installed loaded" nst0 Background "''erase''" "[]" "start ()"]
    p c
  show ?thesis
    by simp
qed

section \<open>Which invocations carry the caller's context\<close>

text \<open>
  Claim C8, as stated, fails. \<open>PrevFileCtx\<close> under a caller's deadline makes six
  invocations on a drive at file 2: the three medium-type probes carry no context at all,
  and \<open>mt status\<close> of the file-number query carries the background context; only
  \<open>mt bsf 1\<close> and \<open>mt bsfm 1\<close> carry the caller's context.
\<close>

theorem PrevFileCtx_contexts_counterexample:
  "map inv_ctx (calls (snd (PrevFileCtx scripted nst0 (Deadline 0 five_seconds)
                             (start at_file_2)))) =
     [None, Some Background,
      None, Some (Deadline 0 five_seconds),
      None, Some (Deadline 0 five_seconds)]"
  by code_simp

text \<open>
  Claim C8, amended. Every \<open>mt\<close> command that \<open>ExecMtCmdCtx\<close> (and so \<open>RewindCtx\<close>,
  \<open>NextFileCtx\<close> and the other context-carrying primitives) invokes runs under the
  caller's context, and so do \<open>mt rewind\<close>, \<open>mt bsf 1\<close> and \<open>mt bsfm 1\<close> of
  \<open>PrevFileCtx\<close>. The medium-type probe before each \<open>mt\<close> command goes through
  \<open>ExecSgReadAttr\<close> and runs without any context, and \<open>mt status\<close> of the file-number
  query of \<open>PrevFileCtx\<close> runs under the background context. Nothing else is invoked.
\<close>

theorem context_scope:
  "calls_within s (snd (ExecMtCmdCtx run device ctx cmd args s))
     {probe_call device, mt_call device ctx cmd args}
   \<and> calls_within s (snd (RewindCtx run device ctx s)) (count_calls device ctx)
   \<and> calls_within s (snd (NextFileCtx run device ctx s)) (count_calls device ctx)
   \<and> calls_within s (snd (PrevFileCtx run device ctx s)) (prev_calls device ctx)
   \<and> inv_ctx (probe_call device) = None
   \<and> inv_ctx (mt_call device ctx cmd args) = Some ctx
   \<and> inv_ctx (mt_call device Background ''status'' []) = Some Background"
  by (simp add: ExecMtCmdCtx_within RewindCtx_within NextFileCtx_within PrevFileCtx_within)
     (simp add: probe_call_def mt_call_def)

theorem context_scope_witness:
  "set (calls (snd (PrevFileCtx scripted nst0 (Deadline 0 five_seconds) (start at_file_2))))
     \<subseteq> prev_calls nst0 (Deadline 0 five_seconds)
   \<and> length (calls (snd (PrevFileCtx scripted nst0 (Deadline 0 five_seconds)
                           (start at_file_2)))) = 6"
proof -
  have c: "calls (start at_file_2) = []"
    by code_simp
  have n: "length (calls (snd (PrevFileCtx scripted nst0 (Deadline 0 five_seconds)
                           (start at_file_2)))) = 6"
    by code_simp
  from context_scope [of "start at_file_2" scripted nst0 "Deadline 0 five_seconds"] c n
  show ?thesis
    by (simp add: calls_within_def new_calls_def)
qed

section \<open>Utility discovery\<close>

lemma getCmdOutputCtx_step:
  "getCmdOutputCtx run ctx path [parm] s =
     ((fst (fst (run (world s) (util_call ctx parm path))),
       map_option Exec (snd (fst (run (world s) (util_call ctx parm path))))),
      s\<lparr>world := snd (run (world s) (util_call ctx parm path)),
        trace := trace s @ [(util_call ctx parm path, fst (run (world s) (util_call ctx parm path)))]\<rparr>)"
  by (simp add: getCmdOutputCtx_def CombinedOutput_def util_call_def split: prod.splits)

lemma utilProbe_loop_step:
  "utilProbe_loop run ctx (path # possibleAt) parm onFail s =
     (if resolvable (fst (run (world s) (util_call ctx parm path)))
      then ((path, None), snd (getCmdOutputCtx run ctx path [parm] s))
      else utilProbe_loop run ctx possibleAt parm onFail (snd (getCmdOutputCtx run ctx path [parm] s)))"
  by (cases "snd (fst (run (world s) (util_call ctx parm path)))")
     (simp_all add: getCmdOutputCtx_step resolvable_def)

declare utilProbe_loop.simps(2) [simp del]

lemma utilProbe_loop_spec:
  "\<exists>tr. trace (snd (utilProbe_loop run ctx possibleAt parm onFail s)) = trace s @ tr
        \<and> replays run (world s) tr
        \<and> probe_outcome ctx parm onFail possibleAt
             (fst (utilProbe_loop run ctx possibleAt parm onFail s)) tr"
proof (induction possibleAt arbitrary: s)
  case Nil
  show ?case by (simp add: probe_outcome_def)
next
  case (Cons path possibleAt)
  let ?r = "fst (run (world s) (util_call ctx parm path))"
  let ?s1 = "snd (getCmdOutputCtx run ctx path [parm] s)"
  have t1: "trace ?s1 = trace s @ [(util_call ctx parm path, ?r)]"
    "world ?s1 = snd (run (world s) (util_call ctx parm path))"
    by (simp_all add: getCmdOutputCtx_step)
  show ?case
  proof (cases "resolvable ?r")
    case True
    then have "probe_outcome ctx parm onFail (path # possibleAt)
                 (fst (utilProbe_loop run ctx (path # possibleAt) parm onFail s))
                 [(util_call ctx parm path, ?r)]"
      by (simp add: utilProbe_loop_step probe_outcome_def)
    moreover have "replays run (world s) [(util_call ctx parm path, ?r)]"
      by simp
    ultimately show ?thesis
      using True t1(1) by (auto simp: utilProbe_loop_step)
  next
    case False
    from Cons.IH [of ?s1] obtain tr where
      tr: "trace (snd (utilProbe_loop run ctx possibleAt parm onFail ?s1)) = trace ?s1 @ tr"
      and re: "replays run (world ?s1) tr"
      and out: "probe_outcome ctx parm onFail possibleAt
                  (fst (utilProbe_loop run ctx possibleAt parm onFail ?s1)) tr"
      by blast
    from out False have "probe_outcome ctx parm onFail (path # possibleAt)
                  (fst (utilProbe_loop run ctx possibleAt parm onFail ?s1))
                  ((util_call ctx parm path, ?r) # tr)"
      by (cases tr) (auto simp: probe_outcome_def split: if_splits)
    moreover have "replays run (world s) ((util_call ctx parm path, ?r) # tr)"
      using re t1(2) by simp
    ultimately show ?thesis
      using False tr t1(1) by (auto simp: utilProbe_loop_step)
  qed
qed

text \<open>
  Claim C9. \<open>utilProbe\<close> creates one context and tries the candidates in order under it,
  each with the probe argument; the log holds these invocations with the answers of the
  runner. Every candidate before the last one tried failed with an
  error that is not an \<open>exec.ExitError\<close>; if the last one tried succeeded or failed with an
  \<open>exec.ExitError\<close>, it is returned; if not, every candidate was tried and the failure
  given is returned, which is the error of its utility for each of the three discovery
  functions. In particular, when the first candidate does not resolve and the second
  does, the second is returned.
\<close>

theorem utilProbe_first_resolvable:
  "prefix (trace s) (trace (snd (utilProbe run possibleAt parm onFail s)))
   \<and> replays run (world s) (new_trace s (snd (utilProbe run possibleAt parm onFail s)))
   \<and> probe_outcome (Deadline (contexts s) UtilsDiscoverTimeout) parm onFail possibleAt
       (fst (utilProbe run possibleAt parm onFail s))
       (new_trace s (snd (utilProbe run possibleAt parm onFail s)))
   \<and> contexts (snd (utilProbe run possibleAt parm onFail s)) = Suc (contexts s)
   \<and> (\<not> resolvable (fst (run (world s)
                           (util_call (Deadline (contexts s) UtilsDiscoverTimeout) parm p1)))
      \<and> resolvable (fst (run (snd (run (world s)
                           (util_call (Deadline (contexts s) UtilsDiscoverTimeout) parm p1)))
                           (util_call (Deadline (contexts s) UtilsDiscoverTimeout) parm p2)))
      \<longrightarrow> fst (utilProbe run (p1 # p2 # rest) parm onFail s) = (p2, None))
   \<and> resolvable (out, None)
   \<and> resolvable (out, Some e) = is_ExitError e
   \<and> errors_As_ExitError (Exec e) = is_ExitError e
   \<and> discoverMt run s = utilProbe run possibleMt ''-h'' ErrNoMtDiscovered s
   \<and> discoverSgLogs run s = utilProbe run possibleSgLogs ''-h'' ErrNoSgLogsDiscovered s
   \<and> discoverSgReadAttr run s =
       utilProbe run possibleSgReadAttr ''-h'' ErrNoSgReadAttrDiscovered s"
proof -
  let ?ctx = "Deadline (contexts s) UtilsDiscoverTimeout"
  let ?s0 = "s\<lparr>contexts := Suc (contexts s)\<rparr>"
  have u: "utilProbe run ps parm onFail s = utilProbe_loop run ?ctx ps parm onFail ?s0" for ps
    by (simp add: utilProbe_def context_WithTimeout_def)
  from utilProbe_loop_spec [of run ?ctx possibleAt parm onFail ?s0] obtain tr where
    tr: "trace (snd (utilProbe run possibleAt parm onFail s)) = trace s @ tr"
    and re: "replays run (world s) tr"
    and out: "probe_outcome ?ctx parm onFail possibleAt
                (fst (utilProbe run possibleAt parm onFail s)) tr"
    by (auto simp: u)
  have cs: "contexts (snd (utilProbe_loop run c ps parm onFail t)) = contexts t" for c ps t
    by (induction ps arbitrary: t) (simp_all add: utilProbe_loop_step getCmdOutputCtx_step)
  have ctxs: "contexts (snd (utilProbe run possibleAt parm onFail s)) = Suc (contexts s)"
    by (simp add: u cs)
  have two: "fst (utilProbe run (p1 # p2 # rest) parm onFail s) = (p2, None)"
    if "\<not> resolvable (fst (run (world s) (util_call ?ctx parm p1)))"
      and "resolvable (fst (run (snd (run (world s) (util_call ?ctx parm p1)))
                               (util_call ?ctx parm p2)))"
    using that by (simp add: u utilProbe_loop_step getCmdOutputCtx_step)
  from tr re out two ctxs show ?thesis
    by (simp add: new_trace_def resolvable_def discoverMt_def discoverSgLogs_def
        discoverSgReadAttr_def)
qed

theorem utilProbe_first_resolvable_witness:
  "fst (discoverMt (installed only_mt_st) (start ())) = (''/usr/bin/mt-st'', None)
   \<and> map (inv_name \<circ> fst) (trace (snd (discoverMt (installed only_mt_st) (start ())))) =
       [''/usr/bin/mt'', ''/usr/bin/mt-st'']
   \<and> fst (discoverSgLogs (installed only_mt_st) (start ())) = ([], Some ErrNoSgLogsDiscovered)"
proof -
  let ?ctx = "Deadline (contexts (start ())) UtilsDiscoverTimeout"
  have h1: "\<not> resolvable (fst (installed only_mt_st (world (start ()))
                                 (util_call ?ctx ''-h'' ''/usr/bin/mt'')))"
    by code_simp
  have h2: "resolvable (fst (installed only_mt_st
                              (snd (installed only_mt_st (world (start ()))
                                     (util_call ?ctx ''-h'' ''/usr/bin/mt'')))
                              (util_call ?ctx ''-h'' ''/usr/bin/mt-st'')))"
    by code_simp
  have t: "map (inv_name \<circ> fst) (trace (snd (discoverMt (installed only_mt_st) (start ())))) =
       [''/usr/bin/mt'', ''/usr/bin/mt-st'']"
    by code_simp
  have l: "fst (discoverSgLogs (installed only_mt_st) (start ())) =
             ([], Some ErrNoSgLogsDiscovered)"
    by code_simp
  from utilProbe_first_resolvable [where s = "start ()" and run = "installed only_mt_st"
      and parm = "''-h''" and ?p1.0 = "''/usr/bin/mt''" and ?p2.0 = "''/usr/bin/mt-st''"
      and rest = "[''/bin/mt'', ''/bin/mt-st'', ''mt'', ''mt-st'']"
      and onFail = ErrNoMtDiscovered] h1 h2
  have "fst (discoverMt (installed only_mt_st) (start ())) = (''/usr/bin/mt-st'', None)"
    by (simp add: possibleMt_def)
  with t l show ?thesis
    by simp
qed

section \<open>White space, fields and numbers\<close>

lemma space_runes_nonempty: "list_all (\<lambda>p. p \<noteq> []) space_runes"
  by code_simp

lemma space_runes_ascii: "list_all (\<lambda>p. list_ex ascii_space p \<longrightarrow> length p = 1) space_runes"
  by code_simp

lemma ascii_space_rune: "ascii_space c \<Longrightarrow> [c] \<in> set space_runes"
  by (auto simp: ascii_space_def space_runes_def)

lemma find_SomeD: "find P xs = Some x \<Longrightarrow> x \<in> set xs \<and> P x"
  by (induction xs) (auto split: if_splits)

lemma suffix_append_cases:
  assumes "suffix p (x @ b)"
  shows "suffix p b \<or> (\<exists>q. q \<noteq> [] \<and> suffix q x \<and> p = q @ b)"
proof -
  from assms have "suffix p b \<or> (\<exists>q. p = q @ b \<and> suffix q x)"
    by (simp add: suffix_append)
  then show ?thesis
  proof
    assume "suffix p b" then show ?thesis ..
  next
    assume "\<exists>q. p = q @ b \<and> suffix q x"
    then obtain q where q: "p = q @ b" "suffix q x" by blast
    show ?thesis
    proof (cases "q = []")
      case True
      with q show ?thesis by simp
    next
      case False
      with q show ?thesis by blast
    qed
  qed
qed

lemma space_len_0_iff: "space_len s = 0 \<longleftrightarrow> (\<forall>p \<in> set space_runes. \<not> prefix p s)"
  using space_runes_nonempty
  by (auto simp: space_len_def find_None_iff list_all_iff split: option.splits dest: find_SomeD)

lemma space_len_pos:
  assumes "space_len s \<noteq> 0"
  obtains p where "p \<in> set space_runes" "prefix p s" "length p = space_len s"
  using assms by (auto simp: space_len_def split: option.splits dest: find_SomeD)

lemma space_len_end_0_iff: "space_len_end s = 0 \<longleftrightarrow> (\<forall>p \<in> set space_runes. \<not> suffix p s)"
  using space_runes_nonempty
  by (auto simp: space_len_end_def find_None_iff list_all_iff split: option.splits dest: find_SomeD)

lemma space_len_end_pos:
  assumes "space_len_end s \<noteq> 0"
  obtains p where "p \<in> set space_runes" "suffix p s" "length p = space_len_end s"
  using assms by (auto simp: space_len_end_def split: option.splits dest: find_SomeD)

lemma rune_not_plain: "p \<in> set space_runes \<Longrightarrow> c \<in> set p \<Longrightarrow> \<not> plain c"
  by (auto simp: plain_def)

lemma space_len_plain: "plain c \<Longrightarrow> space_len (c # s) = 0"
  unfolding space_len_0_iff
proof
  fix p
  assume "plain c" "p \<in> set space_runes"
  show "\<not> prefix p (c # s)"
  proof
    assume "prefix p (c # s)"
    moreover have "p \<noteq> []"
      using space_runes_nonempty \<open>p \<in> set space_runes\<close> by (auto simp: list_all_iff)
    ultimately have "c \<in> set p"
      by (cases p) auto
    with \<open>plain c\<close> \<open>p \<in> set space_runes\<close> show False
      by (auto dest: rune_not_plain)
  qed
qed

lemma space_len_ascii_space:
  assumes "ascii_space c"
  shows "space_len (c # s) = 1"
proof -
  have "prefix [c] (c # s)" by simp
  with ascii_space_rune [OF assms] have "space_len (c # s) \<noteq> 0"
    unfolding space_len_0_iff by blast
  then obtain p where p: "p \<in> set space_runes" "prefix p (c # s)" "length p = space_len (c # s)"
    by (rule space_len_pos)
  have "p \<noteq> []"
    using space_runes_nonempty p(1) by (auto simp: list_all_iff)
  with p(2) have "c \<in> set p"
    by (cases p) auto
  with assms have "list_ex ascii_space p"
    by (auto simp: list_ex_iff)
  with space_runes_ascii p(1) have "length p = 1"
    by (auto simp: list_all_iff)
  with p(3) show ?thesis by simp
qed

lemma space_len_end_plain: "plain c \<Longrightarrow> space_len_end (s @ [c]) = 0"
  unfolding space_len_end_0_iff
proof
  fix p
  assume "plain c" "p \<in> set space_runes"
  show "\<not> suffix p (s @ [c])"
  proof
    assume "suffix p (s @ [c])"
    moreover have "p \<noteq> []"
      using space_runes_nonempty \<open>p \<in> set space_runes\<close> by (auto simp: list_all_iff)
    ultimately have "c \<in> set p"
      by (cases p rule: rev_cases) auto
    with \<open>plain c\<close> \<open>p \<in> set space_runes\<close> show False
      by (auto dest: rune_not_plain)
  qed
qed

lemma space_len_end_ascii_space:
  assumes "ascii_space c"
  shows "space_len_end (s @ [c]) = 1"
proof -
  have "suffix [c] (s @ [c])" by (simp add: suffix_def)
  with ascii_space_rune [OF assms] have "space_len_end (s @ [c]) \<noteq> 0"
    unfolding space_len_end_0_iff by blast
  then obtain p where p: "p \<in> set space_runes" "suffix p (s @ [c])"
      "length p = space_len_end (s @ [c])"
    by (rule space_len_end_pos)
  have "p \<noteq> []"
    using space_runes_nonempty p(1) by (auto simp: list_all_iff)
  with p(2) have "c \<in> set p"
    by (cases p rule: rev_cases) auto
  with assms have "list_ex ascii_space p"
    by (auto simp: list_ex_iff)
  with space_runes_ascii p(1) have "length p = 1"
    by (auto simp: list_all_iff)
  with p(3) show ?thesis by simp
qed

lemma space_len_Nil: "space_len [] = 0"
  using space_runes_nonempty by (auto simp: space_len_0_iff list_all_iff)

lemma space_len_end_Nil: "space_len_end [] = 0"
  using space_runes_nonempty by (auto simp: space_len_end_0_iff list_all_iff)

lemma TrimLeftSpace_plain: "plain c \<Longrightarrow> TrimLeftSpace (c # s) = c # s"
  by (subst TrimLeftSpace.simps) (simp add: space_len_plain)

lemma TrimLeftSpace_Nil: "TrimLeftSpace [] = []"
  by (subst TrimLeftSpace.simps) (simp add: space_len_Nil)

lemma TrimLeftSpace_spaces:
  "list_all ascii_space ws \<Longrightarrow> TrimLeftSpace (ws @ s) = TrimLeftSpace s"
proof (induction ws)
  case Nil
  show ?case by simp
next
  case (Cons w ws)
  then have "TrimLeftSpace ((w # ws) @ s) = TrimLeftSpace (ws @ s)"
    by (subst TrimLeftSpace.simps) (simp add: space_len_ascii_space)
  with Cons show ?case by simp
qed

lemma TrimRightSpace_fixed: "space_len_end s = 0 \<Longrightarrow> TrimRightSpace s = s"
  by (subst TrimRightSpace.simps) simp

lemma space_len_end_TrimRightSpace: "space_len_end (TrimRightSpace s) = 0"
proof (induction s rule: TrimRightSpace.induct)
  case (1 s)
  show ?case
  proof (cases "space_len_end s = 0")
    case True
    then show ?thesis by (simp add: TrimRightSpace_fixed)
  next
    case False
    with 1 show ?thesis
      by (subst TrimRightSpace.simps) simp
  qed
qed

text \<open>Trimming on the right stops at a plain byte.\<close>

lemma TrimRightSpace_anchor:
  assumes "plain c"
  shows "\<exists>b'. TrimRightSpace (a @ c # b) = a @ c # b' \<and> prefix b' b"
proof (induction b rule: length_induct)
  case (1 b)
  show ?case
  proof (cases "space_len_end (a @ c # b) = 0")
    case True
    then show ?thesis by (auto simp: TrimRightSpace_fixed)
  next
    case False
    then obtain p where p: "p \<in> set space_runes" "suffix p (a @ c # b)"
      "length p = space_len_end (a @ c # b)"
      by (rule space_len_end_pos)
    have pne: "p \<noteq> []"
      using space_runes_nonempty p(1) by (auto simp: list_all_iff)
    have "c \<notin> set p"
      using assms p(1) by (auto dest: rune_not_plain)
    have "suffix p b"
    proof -
      from p(2) have "suffix p ((a @ [c]) @ b)" by simp
      then have "suffix p b \<or> (\<exists>q. q \<noteq> [] \<and> suffix q (a @ [c]) \<and> p = q @ b)"
        by (rule suffix_append_cases)
      then show ?thesis
      proof
        assume "suffix p b" then show ?thesis .
      next
        assume "\<exists>q. q \<noteq> [] \<and> suffix q (a @ [c]) \<and> p = q @ b"
        then obtain q where q: "q \<noteq> []" "suffix q (a @ [c])" "p = q @ b" by blast
        then have "c \<in> set q" by (cases q rule: rev_cases) auto
        with q(3) \<open>c \<notin> set p\<close> show ?thesis by simp
      qed
    qed
    then obtain b0 where b0: "b = b0 @ p" by (auto simp: suffix_def)
    have t: "take (length (a @ c # b) - space_len_end (a @ c # b)) (a @ c # b) = a @ c # b0"
      using b0 p(3) by simp
    have "length b0 < length b" using b0 pne by simp
    with 1 obtain b' where "TrimRightSpace (a @ c # b0) = a @ c # b' \<and> prefix b' b0"
      by blast
    with False t b0 show ?thesis
      by (subst TrimRightSpace.simps) (auto simp del: append_assoc intro: prefix_order.trans)
  qed
qed

subsection \<open>Split\<close>

lemma Split_nonempty: "Split s sep \<noteq> []"
  by (induction s) (auto split: list.splits)

lemma Split_no_sep: "sep \<notin> set s \<Longrightarrow> Split s sep = [s]"
  by (induction s) auto

lemma Split_append_sep: "Split (a @ sep # b) sep = Split a sep @ Split b sep"
proof (induction a)
  case Nil
  show ?case by simp
next
  case (Cons x a)
  obtain y ys where y: "Split a sep = y # ys"
    using Split_nonempty [of a sep] by (cases "Split a sep") auto
  with Cons show ?case by simp
qed

lemma last_Split: "sep \<notin> set b \<Longrightarrow> last (Split (a @ sep # b) sep) = b"
  by (simp add: Split_append_sep Split_no_sep)

lemma hd_Split: "hd (Split s sep) = takeWhile (\<lambda>c. c \<noteq> sep) s"
proof (induction s)
  case Nil
  show ?case by simp
next
  case (Cons x s)
  obtain y ys where y: "Split s sep = y # ys"
    using Split_nonempty [of s sep] by (cases "Split s sep") auto
  with Cons show ?case by simp
qed

subsection \<open>Fields\<close>

lemma Fields_from_plain: "plain c \<Longrightarrow> Fields_from cur (c # s) = Fields_from (cur @ [c]) s"
  by (subst Fields_from.simps) (simp add: space_len_plain)

lemma Fields_from_space:
  "ascii_space c \<Longrightarrow>
   Fields_from cur (c # s) = (if cur = [] then [] else [cur]) @ Fields_from [] s"
  by (subst Fields_from.simps) (simp add: space_len_ascii_space)

lemma Fields_from_token:
  "list_all plain tok \<Longrightarrow> rest = [] \<or> ascii_space (hd rest) \<Longrightarrow> cur @ tok \<noteq> [] \<Longrightarrow>
   \<exists>fs. Fields_from cur (tok @ rest) = (cur @ tok) # fs"
proof (induction tok arbitrary: cur)
  case Nil
  then show ?case
    by (cases rest) (auto simp: Fields_from.simps(1) Fields_from_space)
next
  case (Cons c tok)
  from Cons.prems have "plain c" "list_all plain tok" by simp_all
  with Cons.IH [of "cur @ [c]"] Cons.prems(2) show ?case
    by (simp add: Fields_from_plain)
qed

lemma Fields_token:
  "list_all plain tok \<Longrightarrow> tok \<noteq> [] \<Longrightarrow> rest = [] \<or> ascii_space (hd rest) \<Longrightarrow>
   \<exists>fs. Fields (tok @ rest) = tok # fs"
  using Fields_from_token [of tok rest "[]"] by (simp add: Fields_def)

text \<open>A string that is not empty after trimming has a first field.\<close>

lemma Fields_from_cur: "cur \<noteq> [] \<Longrightarrow> Fields_from cur s \<noteq> []"
proof (induction cur s rule: Fields_from.induct)
  case (1 cur)
  then show ?case by (simp add: Fields_from.simps(1))
next
  case (2 cur c s)
  then show ?case
    by (subst Fields_from.simps) auto
qed

lemma Fields_nonempty:
  assumes "space_len s = 0" "s \<noteq> []"
  shows "Fields s \<noteq> []"
proof -
  from assms obtain c t where s: "s = c # t" by (cases s) auto
  with assms(1) have "Fields_from [] s = Fields_from [c] t"
    by (simp add: Fields_from.simps(2))
  with Fields_from_cur [of "[c]" t] show ?thesis
    by (simp add: Fields_def)
qed

lemma space_len_TrimLeftSpace: "space_len (TrimLeftSpace s) = 0"
proof (induction s rule: TrimLeftSpace.induct)
  case (1 s)
  show ?case
  proof (cases "space_len s = 0")
    case True
    then show ?thesis by (subst TrimLeftSpace.simps) simp
  next
    case False
    with 1 show ?thesis by (subst TrimLeftSpace.simps) simp
  qed
qed

lemma TrimRightSpace_prefix: "prefix (TrimRightSpace s) s"
proof (induction s rule: TrimRightSpace.induct)
  case (1 s)
  show ?case
  proof (cases "space_len_end s = 0")
    case True
    then show ?thesis by (simp add: TrimRightSpace_fixed)
  next
    case False
    with 1 have "prefix (TrimRightSpace s) (take (length s - space_len_end s) s)"
      by (subst TrimRightSpace.simps) simp
    then show ?thesis
      by (rule prefix_order.trans) (simp add: take_is_prefix)
  qed
qed

lemma space_len_prefix:
  assumes "prefix t s" "t \<noteq> []" "space_len s = 0"
  shows "space_len t = 0"
  unfolding space_len_0_iff
proof
  fix p assume "p \<in> set space_runes"
  with assms(3) have "\<not> prefix p s" by (simp add: space_len_0_iff)
  with assms(1) show "\<not> prefix p t"
    by (auto dest: prefix_order.trans)
qed

lemma Fields_TrimSpace_nonempty: "TrimSpace s \<noteq> [] \<Longrightarrow> Fields (TrimSpace s) \<noteq> []"
  unfolding TrimSpace_def
  using space_len_prefix [OF TrimRightSpace_prefix [of "TrimLeftSpace s"] _ space_len_TrimLeftSpace]
    Fields_nonempty [of "TrimRightSpace (TrimLeftSpace s)"]
  by auto

lemma of_char_digit: "0 \<le> d \<Longrightarrow> d < 10 \<Longrightarrow> (of_char (char_of (48 + d :: int)) :: int) = 48 + d"
  by simp

lemma is_digit_char_of: "0 \<le> d \<Longrightarrow> d < 10 \<Longrightarrow> is_digit (char_of (48 + d :: int))"
  by (simp add: is_digit_def)

lemma digit_val_digit: "0 \<le> d \<Longrightarrow> d < 10 \<Longrightarrow> digit_val (char_of (48 + d :: int)) = Some d"
  by (simp add: digit_val_def)

lemma digit_not_underscore: "is_digit c \<Longrightarrow> c \<noteq> CHR ''_''"
  by (auto simp: is_digit_def)

lemma digit_not_sign: "is_digit c \<Longrightarrow> c \<noteq> CHR ''+'' \<and> c \<noteq> CHR ''-'' \<and> c \<noteq> CHR '',''"
  by (auto simp: is_digit_def)

lemma FormatUint_small: "n < 10 \<Longrightarrow> FormatUint n = [char_of (48 + n)]"
  by (subst FormatUint.simps) simp

lemma FormatUint_large:
  "\<not> n < 10 \<Longrightarrow> FormatUint n = FormatUint (n div 10) @ [char_of (48 + n mod 10)]"
  by (subst FormatUint.simps) simp

lemma FormatUint_nonempty: "FormatUint n \<noteq> []"
  by (cases "n < 10") (simp_all add: FormatUint_small FormatUint_large)

lemma FormatUint_digits: "0 \<le> n \<Longrightarrow> list_all is_digit (FormatUint n)"
proof (induction n rule: FormatUint.induct)
  case (1 n)
  show ?case
  proof (cases "n < 10")
    case True
    with 1(2) show ?thesis by (simp add: FormatUint_small is_digit_char_of)
  next
    case False
    with 1 have "list_all is_digit (FormatUint (n div 10))" by simp
    moreover have "is_digit (char_of (48 + n mod 10))"
      by (rule is_digit_char_of) simp_all
    ultimately show ?thesis using False by (simp add: FormatUint_large)
  qed
qed

lemma FormatUint_hd: "0 < n \<Longrightarrow> hd (FormatUint n) \<noteq> CHR ''0''"
proof (induction n rule: FormatUint.induct)
  case (1 n)
  show ?case
  proof (cases "n < 10")
    case True
    have v: "(of_char (char_of (48 + n)) :: int) = 48 + n"
      using True 1(2) by simp
    have "char_of (48 + n) \<noteq> CHR ''0''"
    proof
      assume "char_of (48 + n) = CHR ''0''"
      then have "(of_char (char_of (48 + n)) :: int) = of_char (CHR ''0'')"
        by (rule arg_cong)
      with v 1(2) show False by simp
    qed
    with True show ?thesis by (simp add: FormatUint_small)
  next
    case False
    with 1 have "hd (FormatUint (n div 10)) \<noteq> CHR ''0''" by simp
    with False show ?thesis
      by (simp add: FormatUint_large FormatUint_nonempty)
  qed
qed

lemma digits_loop_append:
  "digits_loop base b (s @ t) n u =
     (case digits_loop base b s n u of
        Inl e \<Rightarrow> Inl e
      | Inr (m, u') \<Rightarrow> digits_loop base b t m u')"
  by (induction s arbitrary: n u) (auto simp: Let_def split: option.splits)

lemma digits_loop_digit:
  assumes "0 \<le> d" "d < 10" "0 \<le> m" "10 * m + d < 2 ^ 64"
  shows "digits_loop 10 b [char_of (48 + d)] m u = Inr (10 * m + d, u)"
proof -
  have c: "char_of (48 + d) \<noteq> CHR ''_''"
    using assms(1,2) by (intro digit_not_underscore is_digit_char_of)
  have m: "m < 1844674407370955162" using assms by simp
  have e: "m * 10 mod 18446744073709551616 = m * 10"
    "(m * 10 + d) mod 18446744073709551616 = m * 10 + d"
    using assms by simp_all
  show ?thesis
    using assms c m by (simp add: digit_val_digit maxUint64_def e Let_def mult.commute)
qed

lemma digits_loop_FormatUint:
  "0 \<le> n \<Longrightarrow> n < 2 ^ 64 \<Longrightarrow> digits_loop 10 b (FormatUint n) 0 u = Inr (n, u)"
proof (induction n rule: FormatUint.induct)
  case (1 n)
  show ?case
  proof (cases "n < 10")
    case True
    with 1(2) digits_loop_digit [of n 0 b u] show ?thesis
      by (simp add: FormatUint_small)
  next
    case False
    with 1 have ih: "digits_loop 10 b (FormatUint (n div 10)) 0 u = Inr (n div 10, u)"
      by simp
    have "digits_loop 10 b [char_of (48 + n mod 10)] (n div 10) u
            = Inr (10 * (n div 10) + n mod 10, u)"
      using 1(2,3) by (intro digits_loop_digit) simp_all
    with ih False show ?thesis
      by (simp add: FormatUint_large digits_loop_append)
  qed
qed

lemma ParseUint_zero: "ParseUint (FormatUint 0) 0 = Inr 0"
  by code_simp

lemma ParseUint_FormatUint:
  assumes "0 \<le> n" "n < 2 ^ 64"
  shows "ParseUint (FormatUint n) 0 = Inr n"
proof (cases "n = 0")
  case True
  then show ?thesis by (simp add: ParseUint_zero)
next
  case False
  with assms have "0 < n" by simp
  then have "hd (FormatUint n) \<noteq> CHR ''0''" by (rule FormatUint_hd)
  then have "FormatUint n ! 0 \<noteq> CHR ''0''"
    using FormatUint_nonempty [of n] by (simp add: hd_conv_nth)
  then show ?thesis
    using assms FormatUint_nonempty [of n]
    by (simp add: ParseUint_def digits_loop_FormatUint)
qed

lemma ParseInt_decimal:
  assumes "- (2 ^ 63) \<le> n" "n < 2 ^ 63"
  shows "ParseInt (int_decimal n) 0 = Inr n"
proof (cases "n < 0")
  case True
  with assms have "ParseUint (FormatUint (- n)) 0 = Inr (- n)"
    by (intro ParseUint_FormatUint) simp_all
  with True assms show ?thesis
    by (simp add: ParseInt_def int_decimal_def)
next
  case False
  with assms have p: "ParseUint (FormatUint n) 0 = Inr n"
    by (intro ParseUint_FormatUint) simp_all
  from False have "is_digit (hd (FormatUint n))"
    using FormatUint_digits [of n] FormatUint_nonempty [of n]
    by (cases "FormatUint n") simp_all
  then have "FormatUint n ! 0 \<noteq> CHR ''+'' \<and> FormatUint n ! 0 \<noteq> CHR ''-''"
    using FormatUint_nonempty [of n] by (simp add: hd_conv_nth digit_not_sign)
  with False p assms FormatUint_nonempty [of n] show ?thesis
    by (simp add: ParseInt_def int_decimal_def)
qed

lemma space_bytes_not_digit: "list_all (\<lambda>c. \<not> is_digit c) (concat space_runes)"
  by code_simp

lemma digit_plain: "is_digit c \<Longrightarrow> plain c"
  using space_bytes_not_digit unfolding plain_def list_all_iff by blast

lemma comma_minus_plain: "plain (CHR '','')" "plain (CHR ''-'')"
  by (simp_all add: plain_def space_runes_def)

lemma colon_not_space: "\<not> ascii_space (CHR '':'')"
  by code_simp

lemma int_decimal_chars: "list_all (\<lambda>c. c = CHR ''-'' \<or> is_digit c) (int_decimal n)"
proof (cases "n < 0")
  case True
  then have "list_all is_digit (FormatUint (- n))" by (intro FormatUint_digits) simp
  with True show ?thesis by (simp add: int_decimal_def list_all_iff)
next
  case False
  then have "list_all is_digit (FormatUint n)" by (intro FormatUint_digits) simp
  with False show ?thesis by (simp add: int_decimal_def list_all_iff)
qed

lemma token_chars:
  assumes "remove_commas tok = int_decimal n"
  shows "list_all (\<lambda>c. c = CHR '','' \<or> c = CHR ''-'' \<or> is_digit c) tok" and "tok \<noteq> []"
proof -
  have "c = CHR '','' \<or> c = CHR ''-'' \<or> is_digit c" if "c \<in> set tok" for c
  proof (cases "c = CHR '',''")
    case True
    then show ?thesis by simp
  next
    case False
    with that have "c \<in> set (remove_commas tok)" by (simp add: remove_commas_def)
    with assms int_decimal_chars [of n] show ?thesis by (auto simp: list_all_iff)
  qed
  then show "list_all (\<lambda>c. c = CHR '','' \<or> c = CHR ''-'' \<or> is_digit c) tok"
    by (simp add: list_all_iff)
  have "int_decimal n \<noteq> []"
    by (simp add: int_decimal_def FormatUint_nonempty)
  with assms show "tok \<noteq> []" by (auto simp: remove_commas_def)
qed

lemma token_plain:
  assumes "remove_commas tok = int_decimal n"
  shows "list_all plain tok" and "CHR '':'' \<notin> set tok"
proof -
  have ch: "c = CHR '','' \<or> c = CHR ''-'' \<or> is_digit c" if "c \<in> set tok" for c
    using token_chars(1) [OF assms] that unfolding list_all_iff by blast
  show "list_all plain tok"
    unfolding list_all_iff
  proof
    fix c assume "c \<in> set tok"
    from ch [OF this] show "plain c"
      using comma_minus_plain digit_plain by blast
  qed
  show "CHR '':'' \<notin> set tok"
  proof
    assume "CHR '':'' \<in> set tok"
    from ch [OF this] have "is_digit (CHR '':'')" by simp
    then show False by (simp add: is_digit_def)
  qed
qed

lemma TrimSpace_anchored:
  assumes "list_all ascii_space ws" "x \<noteq> []" "plain (hd x)" "plain c"
  shows "\<exists>b'. TrimSpace (ws @ x @ c # b) = x @ c # b' \<and> prefix b' b"
proof -
  from assms(2,3) have "TrimLeftSpace (x @ c # b) = x @ c # b"
    by (cases x) (simp_all add: TrimLeftSpace_plain)
  with assms(1) have "TrimLeftSpace (ws @ x @ c # b) = x @ c # b"
    by (simp add: TrimLeftSpace_spaces)
  with TrimRightSpace_anchor [OF assms(4), of x b] show ?thesis
    by (simp add: TrimSpace_def)
qed

lemma TrimSpace_token:
  assumes "list_all ascii_space ws" "list_all plain tok" "tok \<noteq> []"
  shows "\<exists>b'. TrimSpace (ws @ tok @ b) = tok @ b' \<and> prefix b' b"
proof -
  from assms(3) obtain t c where t: "tok = t @ [c]" by (cases tok rule: rev_cases) auto
  with assms(2) have c: "plain c" by simp
  have left: "TrimLeftSpace (ws @ tok @ b) = tok @ b"
    using assms by (cases tok) (simp_all add: TrimLeftSpace_spaces TrimLeftSpace_plain)
  from TrimRightSpace_anchor [OF c, of t b] t left show ?thesis
    by (simp add: TrimSpace_def)
qed

lemma prefix_rest:
  assumes "prefix b' b" "b = [] \<or> ascii_space (hd b)"
  shows "b' = [] \<or> ascii_space (hd b')"
  using assms by (cases b'; cases b) auto

lemma extractSgIntVal_well_formed:
  assumes ws1: "list_all ascii_space ws1" and ws2: "list_all ascii_space ws2"
    and body: "body \<noteq> []" "plain (hd body)"
    and tok: "remove_commas tok = int_decimal n"
    and rest: "rest = [] \<or> ascii_space (hd rest)" "CHR '':'' \<notin> set rest"
    and range: "- (2 ^ 63) \<le> n" "n < 2 ^ 63"
  shows "extractSgIntVal (ws1 @ body @ CHR '':'' # ws2 @ tok @ rest) 0 = (n, None)"
proof -
  note tp = token_plain [OF tok] and tc = token_chars [OF tok]
  from tc(2) obtain t c where t: "tok = t @ [c]" by (cases tok rule: rev_cases) auto
  with tp(1) have c: "plain c" by simp
  have "\<exists>b'. TrimSpace (ws1 @ (body @ CHR '':'' # ws2 @ t) @ c # rest) =
              (body @ CHR '':'' # ws2 @ t) @ c # b' \<and> prefix b' rest"
    using ws1 body c by (intro TrimSpace_anchored) simp_all
  then obtain r1 where s: "TrimSpace (ws1 @ body @ CHR '':'' # ws2 @ tok @ rest) =
      body @ CHR '':'' # ws2 @ tok @ r1" and r1: "prefix r1 rest"
    using t by auto
  have r1': "r1 = [] \<or> ascii_space (hd r1)" "CHR '':'' \<notin> set r1"
    using prefix_rest [OF r1 rest(1)] r1 rest(2) by (auto dest: set_mono_prefix)
  have "CHR '':'' \<notin> set ws2"
    using ws2 colon_not_space by (auto simp: list_all_iff)
  with tp(2) r1'(2) have l: "last (Split (body @ CHR '':'' # ws2 @ tok @ r1) (CHR '':'')) =
      ws2 @ tok @ r1"
    by (intro last_Split) simp
  from TrimSpace_token [OF ws2 tp(1) tc(2), of r1]
  obtain r2 where v: "TrimSpace (ws2 @ tok @ r1) = tok @ r2" and r2: "prefix r2 r1"
    by blast
  have "r2 = [] \<or> ascii_space (hd r2)"
    using prefix_rest [OF r2 r1'(1)] .
  with Fields_token [OF tp(1) tc(2)] obtain fs where f: "Fields (tok @ r2) = tok # fs"
    by blast
  from ParseInt_decimal [OF range] tok have p: "ParseInt (remove_commas tok) 0 = Inr n"
    by simp
  have ne: "length (tok @ r2) \<noteq> 0"
    using tc(2) by simp
  show ?thesis
    unfolding extractSgIntVal_def Let_def s l v f
    using ne by (simp add: p)
qed

section \<open>The current file number\<close>

lemma GetCurFileNumber_lines_eq:
  "GetCurFileNumber_lines outLines =
     (case find (\<lambda>line. prefix ''File number'' (first_subfield line)) outLines of
        None \<Rightarrow> (0, Some ErrSomeMtRelatedFieldsMissing)
      | Some line \<Rightarrow>
          (case extractMtUintVal (first_subfield line) 0 of
             (val, None) \<Rightarrow> (val, None)
           | (val, Some err) \<Rightarrow> (0, Some (Wrap ErrMtOutputParseFailed err))))"
  by (induction outLines)
     (auto simp: Let_def hd_Split first_subfield_def HasPrefix_def split: prod.splits option.splits)

lemma GetCurFileNumber_eq:
  "GetCurFileNumber run device s =
     (case ExecMtCmdCtx run device Background ''status'' [] s of
        ((cmdOut, Some err), s') \<Rightarrow> ((0, Some (Wrap ErrMtExecFailed err)), s')
      | ((cmdOut, None), s') \<Rightarrow> (file_number_of cmdOut, s'))"
  by (auto simp: GetCurFileNumber_def ExecMtCmd_zero file_number_of_def GetCurFileNumber_lines_eq
      split: prod.splits option.splits)

lemma label_plain: "plain (CHR ''F'')" "plain (CHR ''M'')" "plain (CHR ''A'')" "plain (CHR ''='')"
  by (simp_all add: plain_def space_runes_def)

lemma not_digit: "\<not> is_digit (CHR '','')" "\<not> is_digit (CHR ''='')"
  by (simp_all add: is_digit_def)

lemma digits_no_sep:
  assumes "0 \<le> n"
  shows "CHR '','' \<notin> set (FormatUint n)" "CHR ''='' \<notin> set (FormatUint n)"
  using FormatUint_digits [OF assms] not_digit unfolding list_all_iff by blast+

lemma digits_plain: "0 \<le> n \<Longrightarrow> list_all plain (FormatUint n)"
  using FormatUint_digits [of n] digit_plain unfolding list_all_iff by blast

lemma comma_not_space: "\<not> ascii_space (CHR '','')"
  by (simp add: ascii_space_def)

lemma spaces_no_comma: "list_all ascii_space ws \<Longrightarrow> CHR '','' \<notin> set ws"
  using comma_not_space unfolding list_all_iff by blast

lemma TrimSpace_field:
  assumes "list_all ascii_space ws" "0 \<le> n"
  shows "TrimSpace (ws @ ''File number='' @ FormatUint n) = ''File number='' @ FormatUint n"
proof -
  obtain t c where t: "FormatUint n = t @ [c]"
    using FormatUint_nonempty [of n] by (cases "FormatUint n" rule: rev_cases) auto
  with digits_plain [OF assms(2)] have c: "plain c" by simp
  from TrimSpace_anchored [OF assms(1) _ _ c, of "''File number='' @ t" "[]"]
  show ?thesis
    by (simp add: t label_plain)
qed

lemma remove_commas_digits: "0 \<le> n \<Longrightarrow> remove_commas (FormatUint n) = FormatUint n"
  using digits_no_sep(1) [of n] by (auto simp: remove_commas_def filter_id_conv)

lemma extractMtUintVal_field:
  assumes "0 \<le> n" "n < 2 ^ 64"
  shows "extractMtUintVal (''File number='' @ FormatUint n) 0 = (n, None)"
proof -
  have s: "TrimSpace (''File number='' @ FormatUint n) = ''File number='' @ FormatUint n"
    using TrimSpace_field [of "[]" n] assms(1) by simp
  have l: "last (Split (''File number='' @ FormatUint n) (CHR ''='')) = FormatUint n"
    using last_Split [of "CHR ''=''" "FormatUint n" "''File number''"] digits_no_sep(2) [OF assms(1)]
    by simp
  from TrimSpace_token [OF _ digits_plain [OF assms(1)] FormatUint_nonempty, of "[]" "[]"]
  have v: "TrimSpace (FormatUint n) = FormatUint n" by simp
  from Fields_token [OF digits_plain [OF assms(1)] FormatUint_nonempty, of "[]"]
  obtain fs where f: "Fields (FormatUint n) = FormatUint n # fs" by auto
  have ne: "length (FormatUint n) \<noteq> 0" by (simp add: FormatUint_nonempty)
  show ?thesis
    unfolding extractMtUintVal_def Let_def s l v f
    using ne ParseUint_FormatUint [OF assms] by (simp add: remove_commas_digits [OF assms(1)])
qed

lemma GetCurFileNumber_lines_hit:
  "prefix ''File number'' (first_subfield line) \<Longrightarrow>
   extractMtUintVal (first_subfield line) 0 = (v, None) \<Longrightarrow>
   GetCurFileNumber_lines (line # outLines) = (v, None)"
  by (simp add: GetCurFileNumber_lines_eq)

lemma file_number_line:
  assumes "list_all ascii_space ws" "0 \<le> n" "n < 2 ^ 64"
    and "rest = [] \<or> hd rest = CHR '',''"
  shows "GetCurFileNumber_lines
           ((ws @ ''File number='' @ FormatUint n @ rest) # outLines) = (n, None)"
proof -
  have "CHR '','' \<notin> set ''File number=''"
    by simp
  with spaces_no_comma [OF assms(1)] digits_no_sep(1) [OF assms(2)]
  have "CHR '','' \<notin> set (ws @ ''File number='' @ FormatUint n)"
    unfolding set_append by blast
  then have "\<And>c. c \<in> set (ws @ ''File number='' @ FormatUint n) \<Longrightarrow> c \<noteq> CHR '',''"
    by blast
  then have "takeWhile (\<lambda>c. c \<noteq> CHR '','') ((ws @ ''File number='' @ FormatUint n) @ rest)
          = (ws @ ''File number='' @ FormatUint n) @ takeWhile (\<lambda>c. c \<noteq> CHR '','') rest"
    by (rule takeWhile_append2)
  moreover have "takeWhile (\<lambda>c. c \<noteq> CHR '','') rest = []"
    using assms(4) by (cases rest) auto
  ultimately have sub: "first_subfield (ws @ ''File number='' @ FormatUint n @ rest)
          = ''File number='' @ FormatUint n"
    using TrimSpace_field [OF assms(1,2)] by (simp add: first_subfield_def)
  have a: "prefix ''File number'' (first_subfield (ws @ ''File number='' @ FormatUint n @ rest))"
    unfolding sub by simp
  have b: "extractMtUintVal (first_subfield (ws @ ''File number='' @ FormatUint n @ rest)) 0
             = (n, None)"
    unfolding sub by (rule extractMtUintVal_field [OF assms(2,3)])
  show ?thesis
    by (rule GetCurFileNumber_lines_hit [OF a b])
qed

lemma GetCurFileNumber_lines_miss:
  "\<not> prefix ''File number'' (first_subfield line) \<Longrightarrow>
   GetCurFileNumber_lines (line # outLines) = GetCurFileNumber_lines outLines"
  by (simp add: GetCurFileNumber_lines_eq)

text \<open>
  Claim C4, as stated, fails. For the status line of the specification's example,
  \<open>ONLINE, File number=3, Block number=0\<close>, the sub-field before the first comma is
  \<open>ONLINE\<close>, which is no "File number" field: the line is passed over and the result is
  the error that a field is missing, not 3.
\<close>

theorem GetCurFileNumber_counterexample:
  "fst (GetCurFileNumber scripted nst0 (start online_status)) =
     (0, Some ErrSomeMtRelatedFieldsMissing)
   \<and> first_subfield ''ONLINE, File number=3, Block number=0'' = ''ONLINE''"
  by code_simp

text \<open>
  Claim C4, amended. \<open>GetCurFileNumber\<close> runs \<open>mt status\<close> behind the gate and reads the
  output line by line. Of each line it takes the sub-field before the first comma,
  trimmed; a line whose sub-field does not begin with "File number" is passed over, and
  the first line whose sub-field does decides the result by the equals-delimited rule.
  So a line that begins, after white space, with \<open>File number=\<close> and the decimal digits of
  a number below \<open>2 ^ 64\<close>, followed by a comma or the end of the line, gives that number:
  for \<open>File number=3, Block number=0\<close> the result is 3. When no line has the field, the
  result is the error that a field is missing.
\<close>

theorem file_number_extraction:
  "GetCurFileNumber run device s =
     (case ExecMtCmdCtx run device Background ''status'' [] s of
        ((cmdOut, Some err), s') \<Rightarrow> ((0, Some (Wrap ErrMtExecFailed err)), s')
      | ((cmdOut, None), s') \<Rightarrow> (file_number_of cmdOut, s'))
   \<and> file_number_of cmdOut = GetCurFileNumber_lines (Split cmdOut (CHR 0x0A))
   \<and> hd (Split line (CHR '','')) = takeWhile (\<lambda>c. c \<noteq> CHR '','') line
   \<and> GetCurFileNumber_lines [] = (0, Some ErrSomeMtRelatedFieldsMissing)
   \<and> (\<not> prefix ''File number'' (first_subfield line) \<longrightarrow>
        GetCurFileNumber_lines (line # outLines) = GetCurFileNumber_lines outLines)
   \<and> (prefix ''File number'' (first_subfield line) \<longrightarrow>
        GetCurFileNumber_lines (line # outLines) =
          (case extractMtUintVal (first_subfield line) 0 of
             (val, None) \<Rightarrow> (val, None)
           | (val, Some err) \<Rightarrow> (0, Some (Wrap ErrMtOutputParseFailed err))))
   \<and> (list_all ascii_space ws \<and> 0 \<le> n \<and> n < 2 ^ 64 \<and> (rest = [] \<or> hd rest = CHR '','') \<longrightarrow>
        GetCurFileNumber_lines ((ws @ ''File number='' @ FormatUint n @ rest) # outLines) =
          (n, None))"
proof -
  have c2: "file_number_of cmdOut = GetCurFileNumber_lines (Split cmdOut (CHR 0x0A))"
    unfolding GetCurFileNumber_lines_eq file_number_of_def ..
  have c4: "GetCurFileNumber_lines [] = (0, Some ErrSomeMtRelatedFieldsMissing)"
    unfolding GetCurFileNumber_lines_eq by simp
  have c5: "\<not> prefix ''File number'' (first_subfield line) \<longrightarrow>
        GetCurFileNumber_lines (line # outLines) = GetCurFileNumber_lines outLines"
    unfolding GetCurFileNumber_lines_eq by simp
  have c6: "prefix ''File number'' (first_subfield line) \<longrightarrow>
        GetCurFileNumber_lines (line # outLines) =
          (case extractMtUintVal (first_subfield line) 0 of
             (val, None) \<Rightarrow> (val, None)
           | (val, Some err) \<Rightarrow> (0, Some (Wrap ErrMtOutputParseFailed err)))"
    unfolding GetCurFileNumber_lines_eq by simp
  have c7: "list_all ascii_space ws \<and> 0 \<le> n \<and> n < 2 ^ 64 \<and> (rest = [] \<or> hd rest = CHR '','') \<longrightarrow>
        GetCurFileNumber_lines ((ws @ ''File number='' @ FormatUint n @ rest) # outLines) =
          (n, None)"
    using file_number_line [of ws n rest outLines] by blast
  show ?thesis
    by (intro conjI) (rule GetCurFileNumber_eq hd_Split c2 c4 c5 c6 c7)+
qed

theorem file_number_extraction_witness:
  "GetCurFileNumber_lines (Split ''File number=3, Block number=0'' (CHR 0x0A)) = (3, None)
   \<and> fst (GetCurFileNumber scripted nst0 (start file_3_status)) = (3, None)"
proof -
  have f: "FormatUint 3 = ''3''" and s: "list_all ascii_space []"
    and l: "Split ''File number=3, Block number=0'' (CHR 0x0A) = [''File number=3, Block number=0'']"
    by code_simp+
  have r: "fst (GetCurFileNumber scripted nst0 (start file_3_status)) = (3, None)"
    by code_simp
  have p: "list_all ascii_space [] \<and> 0 \<le> (3::int) \<and> (3::int) < 2 ^ 64
        \<and> ('', Block number=0'' = [] \<or> hd '', Block number=0'' = CHR '','')"
    using s by simp
  note t = file_number_extraction [where ws = "[]" and n = 3
      and rest = "'', Block number=0''" and outLines = "[]",
      THEN conjunct2, THEN conjunct2, THEN conjunct2, THEN conjunct2, THEN conjunct2,
      THEN conjunct2, THEN mp, OF p]
  have e: "[] @ ''File number='' @ FormatUint 3 @ '', Block number=0''
         = ''File number=3, Block number=0''"
    unfolding f by simp
  have "GetCurFileNumber_lines [''File number=3, Block number=0''] = (3, None)"
    using t unfolding e .
  with l r show ?thesis
    by simp
qed

end
